theory Spec2Isabelle
  imports Main
begin

section \<open>Errors, panics, packages\<close>

text \<open>
  The program builds its error values with \<open>fmt.Sprintf\<close> from a fixed message template
  and one argument. An \<open>errtag\<close> names the template, the string is the argument.
  \<open>syntaxErr\<close> and \<open>fmtErr\<close> are the two error types of \<open>pcp.go\<close>; \<open>plainErr\<close>
  stands for any other Go error (the \<open>default\<close> case of \<open>checkError\<close>).
\<close>

datatype errtag =
    InvalidImportPath | InvalidDirectory | NoAbsolutePath | EmptyWorkspacePath
  | CannotCreateWorkspace | NotAGoPackage | DownloadFailed | CannotTraverse
  | CannotMkdir | CannotChmod | CannotOpen | CannotCreate | CannotCopy

datatype error = syntaxErr errtag string | fmtErr errtag string | plainErr string

text \<open>Run-time panics of the Go program.\<close>

datatype fault = IndexOutOfRange | NilDereference | RelFailed

text \<open>The fields of \<open>build.Package\<close> that the program reads.\<close>

record package =
  ImportPath :: string
  Name :: string
  Dir :: string
  Goroot :: bool
  Imports :: "string list"

section \<open>The file tree that is read\<close>

text \<open>
  What \<open>os.Lstat\<close> and the directory listing show of a source tree: a non-directory
  entry, a directory with its entries in the (lexical) order in which \<open>filepath.Walk\<close>
  visits them, a directory whose listing fails, and an entry whose \<open>Lstat\<close> fails.
  The second component is the mode of the entry.
\<close>

datatype node =
    Regular string nat
  | Directory string nat "node list"
  | Unlistable string nat
  | Unstatable string

record FileInfo =
  FName :: string
  IsDir :: bool
  Mode :: nat

fun node_name :: "node \<Rightarrow> string" where
  "node_name (Regular n m) = n"
| "node_name (Directory n m cs) = n"
| "node_name (Unlistable n m) = n"
| "node_name (Unstatable n) = n"

fun node_info :: "node \<Rightarrow> FileInfo option" where
  "node_info (Regular n m) = Some \<lparr>FName = n, IsDir = False, Mode = m\<rparr>"
| "node_info (Directory n m cs) = Some \<lparr>FName = n, IsDir = True, Mode = m\<rparr>"
| "node_info (Unlistable n m) = Some \<lparr>FName = n, IsDir = True, Mode = m\<rparr>"
| "node_info (Unstatable n) = None"

fun node_is_dir :: "node \<Rightarrow> bool" where
  "node_is_dir (Directory n m cs) = True"
| "node_is_dir (Unlistable n m) = True"
| "node_is_dir (Regular n m) = False"
| "node_is_dir (Unstatable n) = False"

section \<open>The environment and the program state\<close>

text \<open>
  \<open>world\<close> holds the three flags and the workspace path, which \<open>main\<close> sets once, and the
  answers of everything outside the program: \<open>go/build\<close>, the file system that is read,
  and the success or failure of each system call and of \<open>go get\<close>. The answers are taken
  not to change during a run; what a call finds in the files the program has written is
  read from the state. \<open>root_user\<close> says that the process runs as the superuser, whom
  permission bits do not stop. The verbose flag only prints and is left out.
\<close>

record world =
  hidden :: bool
  recursive :: bool
  workspace :: string
  build_Import :: "string \<Rightarrow> string \<Rightarrow> package \<times> bool"
  filepath_Abs :: "string \<Rightarrow> string option"
  os_Stat_ok :: "string \<Rightarrow> bool"
  os_Lstat_tree :: "string \<Rightarrow> node option"
  root_user :: bool
  os_Open :: "string \<Rightarrow> string option"
  os_Create_ok :: "string \<Rightarrow> bool"
  io_Copy_ok :: "string \<Rightarrow> bool"
  os_MkdirAll_ok :: "string \<Rightarrow> bool"
  os_Chmod_ok :: "string \<Rightarrow> bool"
  go_get_ok :: "string \<Rightarrow> bool"

text \<open>An entry of the file system that is written: kind, permission bits, contents.\<close>

record dentry =
  is_dir :: bool
  perm :: nat
  content :: string

text \<open>Every call that leaves the program, in order, with its outcome.\<close>

datatype event =
    MkdirAll string nat bool
  | CopyFile string string bool
  | Chmod string nat bool
  | GoGet string bool

text \<open>
  \<open>resolved\<close> is the global \<open>map[string]bool\<close>, in which only \<open>true\<close> is ever stored:
  the set of keys. \<open>files\<close> is the part of the file system the program writes.
\<close>

record state =
  resolved :: "string set"
  files :: "string \<rightharpoonup> dentry"
  trace :: "event list"

section \<open>Paths\<close>

text \<open>
  \<open>filepath.Join\<close> and \<open>filepath.Rel\<close> on clean Unix paths. \<open>filepath_Rel\<close> is given
  for a target at or below the base, the only case in which the program calls it.
\<close>

definition filepath_Join :: "string \<Rightarrow> string \<Rightarrow> string" where
  "filepath_Join p e =
     (if e = ''.'' then p else if p = ''/'' then ''/'' @ e else p @ ''/'' @ e)"

definition has_prefix :: "string \<Rightarrow> string \<Rightarrow> bool" where
  "has_prefix s p = (take (length p) s = p)"

definition filepath_Rel :: "string \<Rightarrow> string \<Rightarrow> string option" where
  "filepath_Rel base targ =
     (if targ = base then Some ''.''
      else if base = ''/'' \<and> has_prefix targ ''/'' then Some (drop 1 targ)
      else if has_prefix targ (base @ ''/'') then Some (drop (length base + 1) targ)
      else None)"

definition IsLocalImport :: "string \<Rightarrow> bool" where
  "IsLocalImport path =
     (path = ''.'' \<or> path = ''..'' \<or> has_prefix path ''./'' \<or> has_prefix path ''../'')"

definition filepath_IsAbs :: "string \<Rightarrow> bool" where
  "filepath_IsAbs path = has_prefix path ''/''"

section \<open>System calls\<close>

definition log_event :: "event \<Rightarrow> state \<Rightarrow> state" where
  "log_event e st = st\<lparr>trace := trace st @ [e]\<rparr>"

definition os_MkdirAll :: "world \<Rightarrow> string \<Rightarrow> nat \<Rightarrow> state \<Rightarrow> bool \<times> state" where
  "os_MkdirAll w p m st =
     (let ok = (os_MkdirAll_ok w p \<and> (case files st p of None \<Rightarrow> True | Some e \<Rightarrow> is_dir e));
          fs = (if ok \<and> files st p = None
                then (files st)(p \<mapsto> \<lparr>is_dir = True, perm = m, content = []\<rparr>)
                else files st)
      in (ok, log_event (MkdirAll p m ok) (st\<lparr>files := fs\<rparr>)))"

definition os_Chmod :: "world \<Rightarrow> string \<Rightarrow> nat \<Rightarrow> state \<Rightarrow> bool \<times> state" where
  "os_Chmod w p m st =
     (case files st p of
        None \<Rightarrow> (False, log_event (Chmod p m False) st)
      | Some e \<Rightarrow>
          if os_Chmod_ok w p
          then (True, log_event (Chmod p m True)
                        (st\<lparr>files := (files st)(p \<mapsto> e\<lparr>perm := m mod 512\<rparr>)\<rparr>))
          else (False, log_event (Chmod p m False) st))"

text \<open>
  \<open>os.Create\<close> makes a new file with mode 0666 and truncates an existing one, which
  keeps its mode. Opening an existing file for writing needs the owner's write bit
  (octal 200), unless the process is the superuser: a file that an earlier \<open>chmod\<close> made
  read-only cannot be written again.
\<close>

definition may_write :: "world \<Rightarrow> dentry \<Rightarrow> bool" where
  "may_write w e = (root_user w \<or> (perm e div 128) mod 2 = 1)"

definition copyFile :: "world \<Rightarrow> string \<Rightarrow> string \<Rightarrow> state \<Rightarrow> error option \<times> state" where
  "copyFile w src dst st =
     (case os_Open w src of
        None \<Rightarrow> (Some (fmtErr CannotOpen src), log_event (CopyFile src dst False) st)
      | Some c \<Rightarrow>
          if \<not> (os_Create_ok w dst \<and>
                  (case files st dst of None \<Rightarrow> True | Some e \<Rightarrow> \<not> is_dir e \<and> may_write w e))
          then (Some (fmtErr CannotCreate dst), log_event (CopyFile src dst False) st)
          else
            let m = (case files st dst of None \<Rightarrow> 438 | Some e \<Rightarrow> perm e)
            in if io_Copy_ok w src
               then (None, log_event (CopyFile src dst True)
                       (st\<lparr>files := (files st)(dst \<mapsto> \<lparr>is_dir = False, perm = m, content = c\<rparr>)\<rparr>))
               else (Some (fmtErr CannotCopy src), log_event (CopyFile src dst False)
                       (st\<lparr>files := (files st)(dst \<mapsto> \<lparr>is_dir = False, perm = m, content = []\<rparr>)\<rparr>)))"

definition getPackage :: "world \<Rightarrow> string \<Rightarrow> state \<Rightarrow> error option \<times> state" where
  "getPackage w pkg st =
     (if go_get_ok w pkg then (None, log_event (GoGet pkg True) st)
      else (Some (fmtErr DownloadFailed pkg), log_event (GoGet pkg False) st))"

section \<open>filepath.Walk\<close>

text \<open>
  The walk function returns \<open>nil\<close> or \<open>filepath.SkipDir\<close> (the two callbacks of the
  program return nothing else) or panics. \<open>walk\<close> follows the library function of the
  same name: the callback first; a directory is listed only after the callback returned
  \<open>nil\<close>; a failed listing calls the callback again with the error; an entry whose
  \<open>Lstat\<close> fails is reported to the callback and the walk goes on; \<open>SkipDir\<close> from a
  non-directory ends the walk of the directory that contains it.
\<close>

datatype walkret = WalkNil | SkipDir

type_synonym 's WalkFunc = "string \<Rightarrow> FileInfo option \<Rightarrow> bool \<Rightarrow> 's \<Rightarrow> fault + walkret \<times> 's"

fun walk :: "'s WalkFunc \<Rightarrow> string \<Rightarrow> node \<Rightarrow> 's \<Rightarrow> fault + walkret \<times> 's"
and walk_children :: "'s WalkFunc \<Rightarrow> string \<Rightarrow> node list \<Rightarrow> 's \<Rightarrow> fault + walkret \<times> 's" where
  "walk fn path (Regular n m) s = fn path (node_info (Regular n m)) False s"
| "walk fn path (Directory n m cs) s =
     (case fn path (node_info (Directory n m cs)) False s of
        Inl f \<Rightarrow> Inl f
      | Inr (SkipDir, s') \<Rightarrow> Inr (WalkNil, s')
      | Inr (WalkNil, s') \<Rightarrow> walk_children fn path cs s')"
| "walk fn path (Unlistable n m) s =
     (case fn path (node_info (Unlistable n m)) False s of
        Inl f \<Rightarrow> Inl f
      | Inr (SkipDir, s') \<Rightarrow> Inr (WalkNil, s')
      | Inr (WalkNil, s') \<Rightarrow> fn path (node_info (Unlistable n m)) True s')"
| "walk fn path (Unstatable n) s = fn path None True s"
| "walk_children fn path [] s = Inr (WalkNil, s)"
| "walk_children fn path (c # cs) s =
     (case node_info c of
        None \<Rightarrow>
          (case fn (filepath_Join path (node_name c)) None True s of
             Inl f \<Rightarrow> Inl f
           | Inr (r, s') \<Rightarrow> walk_children fn path cs s')
      | Some i \<Rightarrow>
          (case walk fn (filepath_Join path (node_name c)) c s of
             Inl f \<Rightarrow> Inl f
           | Inr (WalkNil, s') \<Rightarrow> walk_children fn path cs s'
           | Inr (SkipDir, s') \<Rightarrow>
               if IsDir i then walk_children fn path cs s' else Inr (SkipDir, s')))"

definition filepath_Walk :: "world \<Rightarrow> string \<Rightarrow> 's WalkFunc \<Rightarrow> 's \<Rightarrow> fault + 's" where
  "filepath_Walk w root fn s =
     (case os_Lstat_tree w root of
        None \<Rightarrow> (case fn root None True s of Inl f \<Rightarrow> Inl f | Inr (r, s') \<Rightarrow> Inr s')
      | Some t \<Rightarrow> (case walk fn root t s of Inl f \<Rightarrow> Inl f | Inr (r, s') \<Rightarrow> Inr s'))"

section \<open>findPkg\<close>

text \<open>
  \<open>findPkg\<close> returns the package pointer (\<open>None\<close> is \<open>nil\<close>) and the error. Indexing
  the empty path panics. \<open>build.Import\<close> always returns a package, also with an error.
\<close>

definition findPkg :: "world \<Rightarrow> string \<Rightarrow> string \<Rightarrow> fault + package option \<times> error option" where
  "findPkg w path newImportPath =
     (if \<not> IsLocalImport path \<and> path = [] then Inl IndexOutOfRange
      else
        let dirPath = (IsLocalImport path \<or> hd path = CHR ''/'');
            absPath = (if dirPath \<and> \<not> filepath_IsAbs path then filepath_Abs w path else Some path)
        in case absPath of
             None \<Rightarrow> Inr (None, Some (fmtErr NoAbsolutePath path))
           | Some path1 \<Rightarrow>
               let srcDir = (if dirPath then path1 else []);
                   path2 = (if dirPath then ''.'' else path1);
                   (pkg0, failed) = build_Import w path2 srcDir;
                   pkg = (if newImportPath \<noteq> [] then pkg0\<lparr>ImportPath := newImportPath\<rparr> else pkg0)
               in if failed
                  then Inr (Some pkg, Some (fmtErr NotAGoPackage (if srcDir \<noteq> [] then srcDir else path2)))
                  else Inr (Some pkg, None))"

section \<open>copyDir\<close>

text \<open>
  The state of the walk in \<open>copyDir\<close>: the errors, the stack of pending \<open>chmod\<close>s
  (path and mode, in creation order) and the program state.
\<close>

type_synonym copystate = "error list \<times> (string \<times> nat) list \<times> state"

definition copyFunc :: "world \<Rightarrow> string \<Rightarrow> string \<Rightarrow> copystate WalkFunc" where
  "copyFunc w src dst path info err cs =
     (case cs of (errs, stack, st) \<Rightarrow>
        if err then Inr (WalkNil, (errs @ [fmtErr CannotTraverse path], stack, st))
        else
          (case info of
             None \<Rightarrow> Inl NilDereference
           | Some i \<Rightarrow>
               if \<not> hidden w \<and> FName i = [] then Inl IndexOutOfRange
               else if \<not> hidden w \<and> hd (FName i) = CHR ''.''
               then (if IsDir i then Inr (SkipDir, cs) else Inr (WalkNil, cs))
               else if path = workspace w then Inr (SkipDir, cs)
               else
                 (case filepath_Rel src path of
                    None \<Rightarrow> Inl RelFailed
                  | Some rel \<Rightarrow>
                      let dstPath = filepath_Join dst rel in
                      if IsDir i then
                        (case os_MkdirAll w dstPath 484 st of
                           (False, st1) \<Rightarrow> Inr (WalkNil, (errs @ [fmtErr CannotMkdir dstPath], stack, st1))
                         | (True, st1) \<Rightarrow> Inr (WalkNil, (errs, stack @ [(dstPath, Mode i)], st1)))
                      else
                        (case copyFile w path dstPath st of
                           (Some e, st1) \<Rightarrow> Inr (WalkNil, (errs @ [e], stack @ [(dstPath, Mode i)], st1))
                         | (None, st1) \<Rightarrow> Inr (WalkNil, (errs, stack @ [(dstPath, Mode i)], st1))))))"

text \<open>The second loop of \<open>copyDir\<close>: the stack from its last element to its first.\<close>

fun chmod_all :: "world \<Rightarrow> (string \<times> nat) list \<Rightarrow> error list \<Rightarrow> state \<Rightarrow> error list \<times> state" where
  "chmod_all w [] errs st = (errs, st)"
| "chmod_all w ((p, m) # rest) errs st =
     (case os_Chmod w p m st of
        (True, st1) \<Rightarrow> chmod_all w rest errs st1
      | (False, st1) \<Rightarrow> chmod_all w rest (errs @ [fmtErr CannotChmod p]) st1)"

definition copyDir :: "world \<Rightarrow> string \<Rightarrow> string \<Rightarrow> state \<Rightarrow> fault + error list \<times> state" where
  "copyDir w src dst st =
     (case filepath_Walk w src (copyFunc w src dst) ([], [], st) of
        Inl f \<Rightarrow> Inl f
      | Inr (errs, stack, st1) \<Rightarrow> Inr (chmod_all w (rev stack) errs st1))"

section \<open>findSubPkgs\<close>

definition subPkgFunc :: "world \<Rightarrow> string \<Rightarrow> string \<Rightarrow> ((string \<times> string) list) WalkFunc" where
  "subPkgFunc w basePath baseImportPath path info err ret =
     (if path = basePath then Inr (WalkNil, ret)
      else
        (case info of
           None \<Rightarrow> Inl NilDereference
         | Some i \<Rightarrow>
             if IsDir i then
               (if path = workspace w then Inr (SkipDir, ret)
                else
                  (case filepath_Rel basePath path of
                     None \<Rightarrow> Inr (WalkNil, ret)
                   | Some rel \<Rightarrow>
                       (case findPkg w path (baseImportPath @ ''/'' @ rel) of
                          Inl f \<Rightarrow> Inl f
                        | Inr (Some pkg, None) \<Rightarrow> Inr (WalkNil, ret @ [(Dir pkg, ImportPath pkg)])
                        | Inr (p, e) \<Rightarrow> Inr (WalkNil, ret))))
             else Inr (WalkNil, ret)))"

definition findSubPkgs :: "world \<Rightarrow> string \<Rightarrow> string \<Rightarrow> fault + (string \<times> string) list" where
  "findSubPkgs w basePath baseImportPath =
     filepath_Walk w basePath (subPkgFunc w basePath baseImportPath) []"

section \<open>copyPkg\<close>

text \<open>
  \<open>copyPkg\<close> calls itself inside two loops and need not return. The first argument
  bounds the depth of the calls; \<open>None\<close> says that the bound was reached. \<open>copyEach\<close> is
  a loop of calls \<open>errs = append(errs, copyPkg(...)...)\<close>.
\<close>

type_synonym outcome = "(fault + error list \<times> state) option"

fun copyEach :: "(string \<Rightarrow> string \<Rightarrow> state \<Rightarrow> outcome) \<Rightarrow> (string \<times> string) list \<Rightarrow> state \<Rightarrow> outcome" where
  "copyEach f [] st = Some (Inr ([], st))"
| "copyEach f ((p, i) # rest) st =
     (case f p i st of
        None \<Rightarrow> None
      | Some (Inl x) \<Rightarrow> Some (Inl x)
      | Some (Inr (errs1, st1)) \<Rightarrow>
          (case copyEach f rest st1 of
             None \<Rightarrow> None
           | Some (Inl x) \<Rightarrow> Some (Inl x)
           | Some (Inr (errs2, st2)) \<Rightarrow> Some (Inr (errs1 @ errs2, st2))))"

definition mark :: "string \<Rightarrow> state \<Rightarrow> state" where
  "mark k st = st\<lparr>resolved := insert k (resolved st)\<rparr>"

primrec copyPkg :: "nat \<Rightarrow> world \<Rightarrow> string \<Rightarrow> string \<Rightarrow> state \<Rightarrow> outcome" where
  "copyPkg 0 w path newImportPath st = None"
| "copyPkg (Suc n) w path newImportPath st =
     (case findPkg w path newImportPath of
        Inl x \<Rightarrow> Some (Inl x)
      | Inr (None, err) \<Rightarrow> Some (Inl NilDereference)
      | Inr (Some pkg, err) \<Rightarrow>
          if ImportPath pkg \<in> resolved st then Some (Inr ([], st))
          else if err \<noteq> None \<or> Name pkg = [] then
            (case getPackage w (ImportPath pkg) st of
               (Some e, st1) \<Rightarrow> Some (Inr ([e], mark (ImportPath pkg) st1))
             | (None, st1) \<Rightarrow> Some (Inr ([], mark (ImportPath pkg) st1)))
          else if \<not> Goroot pkg then
            (case copyDir w (Dir pkg)
                    (filepath_Join (filepath_Join (workspace w) ''src'') (ImportPath pkg)) st of
               Inl x \<Rightarrow> Some (Inl x)
             | Inr (errs, st1) \<Rightarrow>
                 (case copyEach (copyPkg n w) (map (\<lambda>dep. (dep, [])) (Imports pkg)) st1 of
                    None \<Rightarrow> None
                  | Some (Inl x) \<Rightarrow> Some (Inl x)
                  | Some (Inr (errs2, st2)) \<Rightarrow>
                      if recursive w then
                        (case findSubPkgs w (Dir pkg) (ImportPath pkg) of
                           Inl x \<Rightarrow> Some (Inl x)
                         | Inr subPkgs \<Rightarrow>
                             (case copyEach (copyPkg n w) subPkgs (mark (ImportPath pkg) st2) of
                                None \<Rightarrow> None
                              | Some (Inl x) \<Rightarrow> Some (Inl x)
                              | Some (Inr (errs3, st3)) \<Rightarrow> Some (Inr (errs @ errs2 @ errs3, st3))))
                      else Some (Inr (errs @ errs2, mark (ImportPath pkg) st2))))
          else Some (Inr ([], st)))"

section \<open>checkError, parseImport, createWorkspace, main\<close>

text \<open>
  A function that may end the process with \<open>os.Exit\<close>: \<open>Exit code\<close>, or \<open>Return\<close> with
  its result. \<open>checkError\<close> reads and writes the global \<open>exitCode\<close>, passed in and out.
  It returns at the first error that is not \<open>nil\<close>.
\<close>

datatype 'a proc = Exit nat | Return 'a

fun checkError :: "bool \<Rightarrow> error option list \<Rightarrow> nat \<Rightarrow> (bool \<times> nat) proc" where
  "checkError fatal [] exitCode = Return (False, exitCode)"
| "checkError fatal (None # errs) exitCode = checkError fatal errs exitCode"
| "checkError fatal (Some (syntaxErr t a) # errs) exitCode =
     (if fatal then Exit 2 else Return (True, exitCode))"
| "checkError fatal (Some (fmtErr t a) # errs) exitCode =
     (if fatal then Exit 1 else Return (True, 3))"
| "checkError fatal (Some (plainErr a) # errs) exitCode =
     (if fatal then Exit 1 else Return (True, 3))"

text \<open>\<open>strings.SplitN(s, ":", 2)\<close>: the text before the first colon and, if there is one, the rest.\<close>

definition splitColon :: "string \<Rightarrow> string list" where
  "splitColon s =
     (if CHR '':'' \<in> set s
      then [takeWhile (\<lambda>c. c \<noteq> CHR '':'') s, tl (dropWhile (\<lambda>c. c \<noteq> CHR '':'') s)]
      else [s])"

definition parseImport :: "world \<Rightarrow> string \<Rightarrow> string \<times> string \<times> error option" where
  "parseImport w s =
     (let split = splitColon s in
      if length split = 0 \<or> hd split = [] then ([], [], Some (syntaxErr InvalidImportPath s))
      else if length split = 2 \<and> split ! 1 \<noteq> [] then
        (if \<not> os_Stat_ok w (split ! 1)
         then (hd split, [], Some (fmtErr InvalidDirectory (split ! 1)))
         else (case filepath_Abs w (split ! 1) of
                 None \<Rightarrow> (hd split, [], Some (fmtErr NoAbsolutePath (split ! 1)))
               | Some d \<Rightarrow> (hd split, d, None)))
      else (hd split, [], None))"

definition createWorkspace :: "world \<Rightarrow> string \<Rightarrow> state \<Rightarrow> (string \<times> error option) \<times> state" where
  "createWorkspace w path st =
     (if path = [] then (([], Some (syntaxErr EmptyWorkspacePath [])), st)
      else
        (case filepath_Abs w path of
           None \<Rightarrow> (([], Some (fmtErr NoAbsolutePath path)), st)
         | Some absPath \<Rightarrow>
             (case os_MkdirAll w absPath 484 st of
                (False, st1) \<Rightarrow> ((absPath, Some (fmtErr CannotCreateWorkspace absPath)), st1)
              | (True, st1) \<Rightarrow> ((absPath, None), st1))))"

text \<open>
  The loop of \<open>main\<close> over the package arguments, with the global \<open>exitCode\<close>. A panic
  or a call of \<open>copyPkg\<close> that does not return ends the loop. \<open>checkError\<close> is not fatal
  here, so it returns.
\<close>

definition pkgArg :: "nat \<Rightarrow> world \<Rightarrow> string \<Rightarrow> nat \<times> state \<Rightarrow> (fault + nat \<times> state) option" where
  "pkgArg n w a cs =
     (case cs of (exitCode, st) \<Rightarrow>
        (case parseImport w a of (importPath, dir, err) \<Rightarrow>
           (case checkError False [err] exitCode of
              Exit c \<Rightarrow> Some (Inr (c, st))
            | Return (True, exitCode1) \<Rightarrow> Some (Inr (exitCode1, st))
            | Return (False, exitCode1) \<Rightarrow>
                (case (if dir \<noteq> [] then copyPkg n w dir importPath st
                       else copyPkg n w importPath [] st) of
                   None \<Rightarrow> None
                 | Some (Inl x) \<Rightarrow> Some (Inl x)
                 | Some (Inr (errs, st1)) \<Rightarrow>
                     (case checkError False (map Some errs) exitCode1 of
                        Exit c \<Rightarrow> Some (Inr (c, st1))
                      | Return (b, exitCode2) \<Rightarrow> Some (Inr (exitCode2, st1)))))))"

fun pkgArgs :: "nat \<Rightarrow> world \<Rightarrow> string list \<Rightarrow> nat \<times> state \<Rightarrow> (fault + nat \<times> state) option" where
  "pkgArgs n w [] cs = Some (Inr cs)"
| "pkgArgs n w (a # as) cs =
     (case pkgArg n w a cs of
        None \<Rightarrow> None
      | Some (Inl x) \<Rightarrow> Some (Inl x)
      | Some (Inr cs1) \<Rightarrow> pkgArgs n w as cs1)"

text \<open>
  \<open>main\<close> after \<open>flag.Parse\<close>: \<open>args\<close> is \<open>flag.Args()\<close>, the flags are in \<open>w\<close>. The
  result is the exit status of the process and the final state; a run that ends in
  \<open>main\<close> returning has status 0.
\<close>

definition main :: "nat \<Rightarrow> world \<Rightarrow> string list \<Rightarrow> state \<Rightarrow> (fault + nat \<times> state) option" where
  "main n w args st =
     (if length args < 2 then Some (Inr (2, st))
      else
        (case createWorkspace w (hd args) st of ((ws, err), st1) \<Rightarrow>
           (case checkError True [err] 0 of
              Exit c \<Rightarrow> Some (Inr (c, st1))
            | Return (b, exitCode) \<Rightarrow> pkgArgs n (w\<lparr>workspace := ws\<rparr>) (tl args) (exitCode, st1))))"

section \<open>Permission bits and example environments\<close>

text \<open>The three octal digits of a mode: owner, group, others (4 read, 2 write, 1 execute).\<close>

definition owner_bits :: "nat \<Rightarrow> nat" where
  "owner_bits m = (m div 64) mod 8"

definition group_bits :: "nat \<Rightarrow> nat" where
  "group_bits m = (m div 8) mod 8"

definition other_bits :: "nat \<Rightarrow> nat" where
  "other_bits m = m mod 8"

text \<open>A directory creation asks for owner rwx, group r, others r (octal 744).\<close>

definition dir_mode_ok :: "event \<Rightarrow> bool" where
  "dir_mode_ok e =
     (case e of
        MkdirAll p m ok \<Rightarrow> owner_bits m = 7 \<and> group_bits m = 4 \<and> other_bits m = 4
      | _ \<Rightarrow> True)"

definition dirs_0744 :: "state \<Rightarrow> bool" where
  "dirs_0744 st = (\<forall>e \<in> set (trace st). dir_mode_ok e)"

text \<open>A walk function keeps a property of the walk state.\<close>

definition preserves :: "'s WalkFunc \<Rightarrow> ('s \<Rightarrow> bool) \<Rightarrow> bool" where
  "preserves fn I = (\<forall>path info err s a s'. I s \<longrightarrow> fn path info err s = Inr (a, s') \<longrightarrow> I s')"

text \<open>
  An environment in which every system call and every download succeeds and in which
  \<open>go/build\<close> finds no package; the state at the start of the program.
\<close>

definition all_ok :: world where
  "all_ok = \<lparr>hidden = False, recursive = True, workspace = ''/ws'',
     build_Import = (\<lambda>p d. (\<lparr>ImportPath = p, Name = [], Dir = [], Goroot = False, Imports = []\<rparr>, True)),
     filepath_Abs = (\<lambda>p. Some (if has_prefix p ''/'' then p else ''/cwd/'' @ p)),
     os_Stat_ok = (\<lambda>p. True),
     os_Lstat_tree = (\<lambda>p. None),
     root_user = False,
     os_Open = (\<lambda>p. Some []),
     os_Create_ok = (\<lambda>p. True),
     io_Copy_ok = (\<lambda>p. True),
     os_MkdirAll_ok = (\<lambda>p. True),
     os_Chmod_ok = (\<lambda>p. True),
     go_get_ok = (\<lambda>p. True)\<rparr>"

definition st0 :: state where
  "st0 = \<lparr>resolved = {}, files = Map.empty, trace = []\<rparr>"




text \<open>
  A small workspace. Package \<open>a\<close> imports \<open>b\<close>, the standard package \<open>fmt\<close> and \<open>e\<close>,
  which is not on disk; it has the sub-package \<open>a/sub\<close>, which imports \<open>a\<close>. The file
  \<open>a.go\<close> cannot be opened and the download of \<open>e\<close> fails.
\<close>

definition demo_pkg :: "string \<Rightarrow> string \<Rightarrow> string \<Rightarrow> bool \<Rightarrow> string list \<Rightarrow> package \<times> bool" where
  "demo_pkg ip nm d g imps = (\<lparr>ImportPath = ip, Name = nm, Dir = d, Goroot = g, Imports = imps\<rparr>, False)"

definition demo_Import :: "string \<Rightarrow> string \<Rightarrow> package \<times> bool" where
  "demo_Import p d =
     (if d = [] \<and> p = ''a'' then demo_pkg ''a'' ''a'' ''/go/src/a'' False [''b'', ''fmt'', ''e'']
      else if d = [] \<and> p = ''b'' then demo_pkg ''b'' ''b'' ''/go/src/b'' False []
      else if d = [] \<and> p = ''fmt'' then demo_pkg ''fmt'' ''fmt'' ''/goroot/src/fmt'' True []
      else if d = ''/go/src/a/sub'' \<and> p = ''.'' then demo_pkg ''.'' ''sub'' ''/go/src/a/sub'' False [''a'']
      else (\<lparr>ImportPath = p, Name = [], Dir = [], Goroot = False, Imports = []\<rparr>, True))"

definition demo_tree :: "string \<Rightarrow> node option" where
  "demo_tree p =
     (if p = ''/go/src/a''
      then Some (Directory ''a'' 493 [Regular ''a.go'' 420, Directory ''sub'' 448 [Regular ''s.go'' 292]])
      else if p = ''/go/src/a/sub'' then Some (Directory ''sub'' 448 [Regular ''s.go'' 292])
      else if p = ''/go/src/b'' then Some (Directory ''b'' 493 [Regular ''b.go'' 420])
      else None)"

definition demo :: world where
  "demo = \<lparr>hidden = False, recursive = True, workspace = ''/ws'',
     build_Import = demo_Import,
     filepath_Abs = (\<lambda>p. Some (if has_prefix p ''/'' then p else ''/cwd/'' @ p)),
     os_Stat_ok = (\<lambda>p. True),
     os_Lstat_tree = demo_tree,
     root_user = False,
     os_Open = (\<lambda>p. if p = ''/go/src/a/a.go'' then None else Some ''package''),
     os_Create_ok = (\<lambda>p. True),
     io_Copy_ok = (\<lambda>p. True),
     os_MkdirAll_ok = (\<lambda>p. True),
     os_Chmod_ok = (\<lambda>p. True),
     go_get_ok = (\<lambda>p. p \<noteq> ''e'')\<rparr>"

section \<open>The graph of calls\<close>

text \<open>
  A call \<open>copyPkg(p, i)\<close> expands a package when \<open>findPkg\<close> resolves it (no error, a
  package name) outside GOROOT: it is then copied, and \<open>copyPkg\<close> is called for its imports
  and, if the recursive flag is set, for its sub-packages. \<open>dep_edges\<close> relates the call
  for an import to the call that makes it. A set of calls is closed when it contains
  every call made by one of its members.
\<close>

definition expands :: "world \<Rightarrow> string \<times> string \<Rightarrow> package \<Rightarrow> bool" where
  "expands w c pkg = (findPkg w (fst c) (snd c) = Inr (Some pkg, None) \<and> Name pkg \<noteq> [] \<and> \<not> Goroot pkg)"









text \<open>
  A process whose working directory is gone: \<open>filepath.Abs\<close> fails on every relative
  path.
\<close>

definition nocwd :: world where
  "nocwd = all_ok\<lparr>filepath_Abs := (\<lambda>p. if has_prefix p ''/'' then Some p else None)\<rparr>"






section \<open>The tree without the contents of the workspace\<close>

text \<open>
  \<open>prune ws p t\<close> is the tree \<open>t\<close>, rooted at path \<open>p\<close>, in which every directory whose
  path is \<open>ws\<close> is empty. \<open>prune_world\<close> is the environment in which every tree that can
  be walked is pruned at the workspace path: there is nothing inside the workspace
  directory to be visited.
\<close>

fun prune :: "string \<Rightarrow> string \<Rightarrow> node \<Rightarrow> node"
and prune_children :: "string \<Rightarrow> string \<Rightarrow> node list \<Rightarrow> node list" where
  "prune ws p (Directory n m cs) =
     (if p = ws then Directory n m [] else Directory n m (prune_children ws p cs))"
| "prune ws p (Regular n m) = Regular n m"
| "prune ws p (Unlistable n m) = Unlistable n m"
| "prune ws p (Unstatable n) = Unstatable n"
| "prune_children ws p [] = []"
| "prune_children ws p (c # cs) = prune ws (filepath_Join p (node_name c)) c # prune_children ws p cs"









section \<open>What a tree copy has to do\<close>

text \<open>
  The entries of a source tree that are to be copied, in the order of the walk: every
  entry that the walk reaches, but no hidden entry (unless the hidden flag is set),
  nothing below a hidden directory, not the workspace directory and nothing below it.
  \<open>planFunc\<close> is the walk function that only collects them.
\<close>

definition planFunc :: "world \<Rightarrow> ((string \<times> FileInfo) list) WalkFunc" where
  "planFunc w path info err acc =
     (if err then Inr (WalkNil, acc)
      else
        (case info of
           None \<Rightarrow> Inl NilDereference
         | Some i \<Rightarrow>
             if \<not> hidden w \<and> FName i = [] then Inl IndexOutOfRange
             else if \<not> hidden w \<and> hd (FName i) = CHR ''.''
             then (if IsDir i then Inr (SkipDir, acc) else Inr (WalkNil, acc))
             else if path = workspace w then Inr (SkipDir, acc)
             else Inr (WalkNil, acc @ [(path, i)])))"

text \<open>The destination of the source entry at \<open>path\<close>.\<close>

definition dst_path :: "string \<Rightarrow> string \<Rightarrow> string \<Rightarrow> string" where
  "dst_path src dst path =
     (case filepath_Rel src path of None \<Rightarrow> [] | Some rel \<Rightarrow> filepath_Join dst rel)"

text \<open>
  \<open>wants src dst x e\<close>: the event \<open>e\<close> is the creation that the source entry \<open>x\<close> asks
  for, a directory with mode 0744 or a copy of the file. \<open>made\<close>: the event left
  something to set the mode of (a directory that was created, any copy of a file).
  \<open>pushed\<close> lists, for the entries and their creation events, the destination and the
  source mode of every entry that was made, in order. \<open>chmod_of\<close>: the event is the
  \<open>chmod\<close> of that destination to that mode.
\<close>

definition wants :: "string \<Rightarrow> string \<Rightarrow> string \<times> FileInfo \<Rightarrow> event \<Rightarrow> bool" where
  "wants src dst x e =
     (case e of
        MkdirAll p m ok \<Rightarrow> IsDir (snd x) \<and> p = dst_path src dst (fst x) \<and> m = 484
      | CopyFile s d ok \<Rightarrow> \<not> IsDir (snd x) \<and> s = fst x \<and> d = dst_path src dst (fst x)
      | _ \<Rightarrow> False)"

definition made :: "event \<Rightarrow> bool" where
  "made e = (case e of MkdirAll p m ok \<Rightarrow> ok | CopyFile s d ok \<Rightarrow> True | _ \<Rightarrow> False)"

definition pushed :: "string \<Rightarrow> string \<Rightarrow> (string \<times> FileInfo) list \<Rightarrow> event list \<Rightarrow> (string \<times> nat) list" where
  "pushed src dst plan A =
     map (\<lambda>(x, e). (dst_path src dst (fst x), Mode (snd x))) (filter (\<lambda>(x, e). made e) (zip plan A))"

definition chmod_of :: "string \<times> nat \<Rightarrow> event \<Rightarrow> bool" where
  "chmod_of pm e = (\<exists>ok. e = Chmod (fst pm) (snd pm) ok)"

text \<open>
  A tree with a read-only file, a directory without write permission and a hidden
  directory; and a destination in which a file stands where the source has a directory.
\<close>

definition perms_tree :: "string \<Rightarrow> node option" where
  "perms_tree p =
     (if p = ''/src/t''
      then Some (Directory ''t'' 493
                  [Directory ''.git'' 493 [Regular ''config'' 420],
                   Directory ''d'' 365 [Regular ''f'' 420],
                   Regular ''ro.txt'' 292])
      else if p = ''/src/u'' then Some (Directory ''u'' 493 [Directory ''x'' 448 []])
      else None)"

definition perms :: world where
  "perms = all_ok\<lparr>os_Lstat_tree := perms_tree, os_Open := (\<lambda>p. Some ''data'')\<rparr>"

definition clash :: state where
  "clash = \<lparr>resolved = {},
            files = [''/dst/u/x'' \<mapsto> \<lparr>is_dir = False, perm = 420, content = ''old''\<rparr>],
            trace = []\<rparr>"

text \<open>
  The walk function \<open>gn\<close> follows \<open>fn\<close>: from states related by \<open>R\<close>, whenever \<open>fn\<close>
  returns, \<open>gn\<close> returns the same answer, in states related by \<open>R\<close>.
\<close>

definition follows :: "'s WalkFunc \<Rightarrow> 't WalkFunc \<Rightarrow> ('s \<Rightarrow> 't \<Rightarrow> bool) \<Rightarrow> bool" where
  "follows fn gn R =
     (\<forall>path info err s t a s'. R s t \<longrightarrow> fn path info err s = Inr (a, s') \<longrightarrow>
        (\<exists>t'. gn path info err t = Inr (a, t') \<and> R s' t'))"

text \<open>
  The state of the walk of \<open>copyDir\<close> after the entries \<open>acc\<close>, when the trace was \<open>T\<close>
  at the start: one creation event for each entry, in order, and no other event; on the
  stack the entries that were made; for each entry either a place on the stack or the
  error of its directory creation; no \<open>chmod\<close> error.
\<close>

definition first_pass ::
  "event list \<Rightarrow> string \<Rightarrow> string \<Rightarrow> copystate \<Rightarrow> (string \<times> FileInfo) list \<Rightarrow> bool" where
  "first_pass T src dst cs acc =
     (case cs of (errs, stack, st) \<Rightarrow>
        (\<exists>A. trace st = T @ A \<and> list_all2 (wants src dst) acc A \<and> stack = pushed src dst acc A)
        \<and> (\<forall>x \<in> set acc. (dst_path src dst (fst x), Mode (snd x)) \<in> set stack
                          \<or> fmtErr CannotMkdir (dst_path src dst (fst x)) \<in> set errs)
        \<and> (\<forall>p. fmtErr CannotChmod p \<notin> set errs))"

section \<open>Definitions unfolded when a run is evaluated\<close>

lemmas sys_defs = os_MkdirAll_def os_Chmod_def copyFile_def may_write_def getPackage_def log_event_def mark_def
  filepath_Join_def filepath_Rel_def has_prefix_def IsLocalImport_def filepath_IsAbs_def Let_def

lemmas walk_defs = copyDir_def filepath_Walk_def copyFunc_def findSubPkgs_def subPkgFunc_def

lemma demo_fields:
  "hidden demo = False" "recursive demo = True" "workspace demo = ''/ws''"
  "build_Import demo = demo_Import" "os_Lstat_tree demo = demo_tree"
  "filepath_Abs demo p = Some (if has_prefix p ''/'' then p else ''/cwd/'' @ p)"
  "os_Stat_ok demo p = True" "root_user demo = False" "os_Open demo p = (if p = ''/go/src/a/a.go'' then None else Some ''package'')"
  "os_Create_ok demo p = True" "io_Copy_ok demo p = True" "os_MkdirAll_ok demo p = True"
  "os_Chmod_ok demo p = True" "go_get_ok demo p = (p \<noteq> ''e'')"
  by (simp_all add: demo_def)

lemmas demo_defs = demo_fields demo_Import_def demo_tree_def demo_pkg_def st0_def

section \<open>Invariants of the walk and of copyPkg\<close>

lemma preservesD: "preserves fn I \<Longrightarrow> I s \<Longrightarrow> fn path info err s = Inr (a, s') \<Longrightarrow> I s'"
  unfolding preserves_def by blast

lemma walk_inv:
  "preserves fn I \<Longrightarrow> I s \<Longrightarrow> walk fn p t s = Inr (r, s') \<Longrightarrow> I s'"
  "preserves fn I \<Longrightarrow> I s \<Longrightarrow> walk_children fn p ts s = Inr (r, s') \<Longrightarrow> I s'"
proof (induction fn p t s and fn p ts s arbitrary: r s' and r s' rule: walk_walk_children.induct)
  case (1 fn path n m s)
  then show ?case by (auto dest: preservesD)
next
  case (2 fn path n m cs s)
  from "2.prems"(3) obtain a s1 where
    f: "fn path (node_info (Directory n m cs)) False s = Inr (a, s1)"
    by (auto split: sum.splits)
  have I1: "I s1" using "2.prems"(1,2) f by (rule preservesD)
  show ?case
  proof (cases a)
    case WalkNil
    with f "2.prems"(3) have rest: "walk_children fn path cs s1 = Inr (r, s')" by simp
    show ?thesis by (rule "2.IH"[OF f refl WalkNil "2.prems"(1) I1 rest])
  next
    case SkipDir
    with f "2.prems"(3) I1 show ?thesis by simp
  qed
next
  case (3 fn path n m s)
  from "3.prems"(3) obtain a s1 where
    f: "fn path (node_info (Unlistable n m)) False s = Inr (a, s1)"
    by (auto split: sum.splits)
  have I1: "I s1" using "3.prems"(1,2) f by (rule preservesD)
  show ?case
  proof (cases a)
    case WalkNil
    with f "3.prems"(3) have "fn path (node_info (Unlistable n m)) True s1 = Inr (r, s')" by simp
    with "3.prems"(1) I1 show ?thesis by (rule preservesD)
  next
    case SkipDir
    with f "3.prems"(3) I1 show ?thesis by simp
  qed
next
  case (4 fn path n s)
  then show ?case by (auto dest: preservesD)
next
  case (5 fn path s)
  then show ?case by simp
next
  case (6 fn path c cs s)
  show ?case
  proof (cases "node_info c")
    case None
    with "6.prems"(3) obtain a s1 where
      f: "fn (filepath_Join path (node_name c)) None True s = Inr (a, s1)"
      and rest: "walk_children fn path cs s1 = Inr (r, s')"
      by (auto split: sum.splits)
    have I1: "I s1" using "6.prems"(1,2) f by (rule preservesD)
    show ?thesis by (rule "6.IH"(1)[OF None f refl "6.prems"(1) I1 rest])
  next
    case (Some i)
    with "6.prems"(3) obtain a s1 where
      f: "walk fn (filepath_Join path (node_name c)) c s = Inr (a, s1)"
      by (auto split: sum.splits)
    have I1: "I s1" by (rule "6.IH"(2)[OF Some "6.prems"(1,2) f])
    show ?thesis
    proof (cases "a = SkipDir \<and> \<not> IsDir i")
      case True
      with f Some "6.prems"(3) I1 show ?thesis by simp
    next
      case False
      with f Some "6.prems"(3) have rest: "walk_children fn path cs s1 = Inr (r, s')"
        by (cases a) (auto split: if_splits)
      from False show ?thesis
      proof (cases a)
        case WalkNil
        show ?thesis by (rule "6.IH"(3)[OF Some f refl WalkNil "6.prems"(1) I1 rest])
      next
        case SkipDir
        with False have d: "IsDir i" by simp
        show ?thesis by (rule "6.IH"(4)[OF Some f refl SkipDir d "6.prems"(1) I1 rest])
      qed
    qed
  qed
qed


lemma copyEach_inv:
  assumes f: "\<And>p i st errs st'. I st \<Longrightarrow> f p i st = Some (Inr (errs, st')) \<Longrightarrow> I st'"
  shows "I st \<Longrightarrow> copyEach f as st = Some (Inr (errs, st')) \<Longrightarrow> I st'"
proof (induction as arbitrary: st errs)
  case Nil
  then show ?case by simp
next
  case (Cons a as)
  obtain p i where a: "a = (p, i)" by (cases a)
  from Cons.prems(2) a obtain e1 s1 e2 where
    h: "f p i st = Some (Inr (e1, s1))" and t: "copyEach f as s1 = Some (Inr (e2, st'))"
    by (auto split: option.splits sum.splits)
  have "I s1" using f Cons.prems(1) h by blast
  then show ?case using Cons.IH t by blast
qed

lemma copyPkg_inv:
  assumes cd: "\<And>src dst st errs st'. I st \<Longrightarrow> copyDir w src dst st = Inr (errs, st') \<Longrightarrow> I st'"
    and gp: "\<And>k st e st'. I st \<Longrightarrow> getPackage w k st = (e, st') \<Longrightarrow> I st'"
    and mk: "\<And>k st. I st \<Longrightarrow> I (mark k st)"
  shows "I st \<Longrightarrow> copyPkg n w path nip st = Some (Inr (errs, st')) \<Longrightarrow> I st'"
proof (induction n arbitrary: path nip st errs st')
  case 0
  then show ?case by simp
next
  case (Suc n)
  have each: "\<And>as s es s'. I s \<Longrightarrow> copyEach (copyPkg n w) as s = Some (Inr (es, s')) \<Longrightarrow> I s'"
    by (rule copyEach_inv[where f = "copyPkg n w" and I = I]) (rule Suc.IH)
  from Suc.prems(2) obtain pkg err where fp: "findPkg w path nip = Inr (Some pkg, err)"
    by (auto split: sum.splits option.splits)
  show ?case
  proof (cases "ImportPath pkg \<in> resolved st")
    case True
    with Suc.prems fp show ?thesis by simp
  next
    case nr: False
    show ?thesis
    proof (cases "err \<noteq> None \<or> Name pkg = []")
      case True
      obtain e s1 where g: "getPackage w (ImportPath pkg) st = (e, s1)" by (cases "getPackage w (ImportPath pkg) st")
      have "I s1" using gp Suc.prems(1) g by blast
      then have "I (mark (ImportPath pkg) s1)" by (rule mk)
      moreover from Suc.prems(2) fp nr True g have "st' = mark (ImportPath pkg) s1"
        by (auto split: option.splits)
      ultimately show ?thesis by simp
    next
      case ok: False
      show ?thesis
      proof (cases "Goroot pkg")
        case True
        with Suc.prems fp nr ok show ?thesis by simp
      next
        case False
        let ?dst = "filepath_Join (filepath_Join (workspace w) ''src'') (ImportPath pkg)"
        from Suc.prems(2) fp nr ok False obtain e1 s1 where
          c: "copyDir w (Dir pkg) ?dst st = Inr (e1, s1)"
          by (auto split: sum.splits)
        from Suc.prems(2) fp nr ok False c obtain e2 s2 where
          d: "copyEach (copyPkg n w) (map (\<lambda>dep. (dep, [])) (Imports pkg)) s1 = Some (Inr (e2, s2))"
          by (auto split: sum.splits option.splits)
        have I1: "I s1" using cd Suc.prems(1) c by blast
        have I2: "I s2" using each I1 d by blast
        have I3: "I (mark (ImportPath pkg) s2)" using I2 by (rule mk)
        show ?thesis
        proof (cases "recursive w")
          case True
          from Suc.prems(2) fp nr ok False c d True obtain subs e3 where
            "copyEach (copyPkg n w) subs (mark (ImportPath pkg) s2) = Some (Inr (e3, st'))"
            by (auto split: sum.splits option.splits)
          with each I3 show ?thesis by blast
        next
          case nrec: False
          from Suc.prems(2) fp nr ok False c d nrec have "st' = mark (ImportPath pkg) s2"
            by auto
          with I3 show ?thesis by simp
        qed
      qed
    qed
  qed
qed

section \<open>Modes of created directories\<close>

lemma dirs_0744_log:
  "dirs_0744 st \<Longrightarrow> dir_mode_ok e \<Longrightarrow> trace s1 = trace st \<Longrightarrow> dirs_0744 (log_event e s1)"
  by (simp add: dirs_0744_def log_event_def)

lemma dir_mode_ok_simps:
  "dir_mode_ok (MkdirAll p 484 ok)" "dir_mode_ok (CopyFile a b ok)"
  "dir_mode_ok (Chmod p m ok)" "dir_mode_ok (GoGet p ok)"
  by (simp_all add: dir_mode_ok_def owner_bits_def group_bits_def other_bits_def)

lemma os_MkdirAll_0744:
  "dirs_0744 st \<Longrightarrow> os_MkdirAll w p 484 st = (ok, st') \<Longrightarrow> dirs_0744 st'"
  by (auto simp: os_MkdirAll_def Let_def intro!: dirs_0744_log dir_mode_ok_simps)

lemma os_Chmod_0744: "dirs_0744 st \<Longrightarrow> os_Chmod w p m st = (ok, st') \<Longrightarrow> dirs_0744 st'"
  by (auto simp: os_Chmod_def intro!: dirs_0744_log dir_mode_ok_simps split: option.splits if_splits)

lemma copyFile_0744: "dirs_0744 st \<Longrightarrow> copyFile w a b st = (e, st') \<Longrightarrow> dirs_0744 st'"
  by (auto simp: copyFile_def Let_def intro!: dirs_0744_log dir_mode_ok_simps
           split: option.splits if_splits)

lemma getPackage_0744: "dirs_0744 st \<Longrightarrow> getPackage w k st = (e, st') \<Longrightarrow> dirs_0744 st'"
  by (auto simp: getPackage_def intro!: dirs_0744_log dir_mode_ok_simps split: if_splits)

lemma mark_0744: "dirs_0744 st \<Longrightarrow> dirs_0744 (mark k st)"
  by (simp add: dirs_0744_def mark_def)

lemma copyFunc_0744: "preserves (copyFunc w src dst) (\<lambda>(errs, stack, st). dirs_0744 st)"
  unfolding preserves_def copyFunc_def Let_def
  by (auto split: prod.splits option.splits if_splits bool.splits
           dest: os_MkdirAll_0744 copyFile_0744)

lemma chmod_all_0744:
  "dirs_0744 st \<Longrightarrow> chmod_all w stack errs st = (errs', st') \<Longrightarrow> dirs_0744 st'"
proof (induction stack arbitrary: errs st)
  case Nil
  then show ?case by simp
next
  case (Cons a rest)
  obtain p m where a: "a = (p, m)" by (cases a)
  obtain ok s1 where c: "os_Chmod w p m st = (ok, s1)" by (cases "os_Chmod w p m st")
  have s1: "dirs_0744 s1" using Cons.prems(1) c by (rule os_Chmod_0744)
  from Cons.prems(2) a c obtain errs1 where "chmod_all w rest errs1 s1 = (errs', st')"
    by (cases ok) auto
  with s1 show ?case by (rule Cons.IH)
qed

lemma filepath_Walk_inv:
  "preserves fn I \<Longrightarrow> I s \<Longrightarrow> filepath_Walk w root fn s = Inr s' \<Longrightarrow> I s'"
  unfolding filepath_Walk_def
  by (auto split: option.splits sum.splits prod.splits dest: preservesD walk_inv(1))

lemma copyDir_0744:
  assumes "dirs_0744 st" and "copyDir w src dst st = Inr (errs, st')"
  shows "dirs_0744 st'"
proof -
  from assms(2) obtain e1 stack s1 where
    wk: "filepath_Walk w src (copyFunc w src dst) ([], [], st) = Inr (e1, stack, s1)"
    and ch: "chmod_all w (rev stack) e1 s1 = (errs, st')"
    by (auto simp: copyDir_def split: sum.splits prod.splits)
  have "(\<lambda>(errs, stack, st). dirs_0744 st) (e1, stack, s1)"
    by (rule filepath_Walk_inv[OF copyFunc_0744 _ wk]) (simp add: assms(1))
  then have "dirs_0744 s1" by simp
  then show ?thesis using ch by (rule chmod_all_0744)
qed

lemma copyPkg_0744:
  "dirs_0744 st \<Longrightarrow> copyPkg n w path nip st = Some (Inr (errs, st')) \<Longrightarrow> dirs_0744 st'"
  by (rule copyPkg_inv[where I = dirs_0744 and w = w])
     (auto intro: copyDir_0744 getPackage_0744 mark_0744)

lemma createWorkspace_0744:
  "dirs_0744 st \<Longrightarrow> createWorkspace w path st = (r, st') \<Longrightarrow> dirs_0744 st'"
  by (auto simp: createWorkspace_def split: if_splits option.splits prod.splits bool.splits
           dest: os_MkdirAll_0744)

lemma pkgArg_0744:
  "dirs_0744 st \<Longrightarrow> pkgArg n w a (c, st) = Some (Inr (c', st')) \<Longrightarrow> dirs_0744 st'"
  by (auto simp: pkgArg_def split: prod.splits proc.splits bool.splits option.splits sum.splits if_splits
           dest: copyPkg_0744)

lemma pkgArgs_0744:
  "dirs_0744 st \<Longrightarrow> pkgArgs n w as (c, st) = Some (Inr (c', st')) \<Longrightarrow> dirs_0744 st'"
proof (induction as arbitrary: c st)
  case Nil
  then show ?case by simp
next
  case (Cons a as)
  from Cons.prems(2) obtain c1 s1 where
    h: "pkgArg n w a (c, st) = Some (Inr (c1, s1))" and t: "pkgArgs n w as (c1, s1) = Some (Inr (c', st'))"
    by (auto split: option.splits sum.splits)
  have "dirs_0744 s1" using Cons.prems(1) h by (rule pkgArg_0744)
  then show ?case using t by (rule Cons.IH)
qed

text \<open>
  Claim C8, as amended. Every directory the program creates, the workspace root in
  \<open>createWorkspace\<close> and the directories of a tree copy in \<open>copyDir\<close>, is created with
  mode octal 744: owner rwx, group r, others r. For a whole run of \<open>main\<close> that ends,
  if the trace holds only such directory creations at the start, it does at the end.
\<close>

theorem created_directories_have_mode_0744:
  assumes "dirs_0744 st" and "main n w args st = Some (Inr (c, st'))"
  shows "dirs_0744 st'"
proof (cases "length args < 2")
  case True
  with assms show ?thesis by (simp add: main_def)
next
  case False
  obtain ws err s1 where cw: "createWorkspace w (hd args) st = ((ws, err), s1)"
    by (cases "createWorkspace w (hd args) st") auto
  have s1: "dirs_0744 s1" using assms(1) cw by (rule createWorkspace_0744)
  show ?thesis
  proof (cases "checkError True [err] 0")
    case (Exit x)
    with assms(2) False cw s1 show ?thesis by (simp add: main_def)
  next
    case (Return r)
    obtain b ec where r: "r = (b, ec)" by (cases r)
    with Return assms(2) False cw have
      "pkgArgs n (w\<lparr>workspace := ws\<rparr>) (tl args) (ec, s1) = Some (Inr (c, st'))"
      by (simp add: main_def)
    with s1 show ?thesis by (rule pkgArgs_0744)
  qed
qed

theorem created_directories_have_mode_0744_witness:
  "dirs_0744 st0 \<and> main (Suc 0) all_ok [''ws'', ''q''] st0
      = Some (Inr (0, \<lparr>resolved = {''q''},
           files = [''/cwd/ws'' \<mapsto> \<lparr>is_dir = True, perm = 484, content = []\<rparr>],
           trace = [MkdirAll ''/cwd/ws'' 484 True, GoGet ''q'' True]\<rparr>))
    \<and> dirs_0744 \<lparr>resolved = {''q''},
           files = [''/cwd/ws'' \<mapsto> \<lparr>is_dir = True, perm = 484, content = []\<rparr>],
           trace = [MkdirAll ''/cwd/ws'' 484 True, GoGet ''q'' True]\<rparr>"
proof -
  have a: "dirs_0744 st0" by (simp add: dirs_0744_def st0_def)
  have b: "main (Suc 0) all_ok [''ws'', ''q''] st0
      = Some (Inr (0, \<lparr>resolved = {''q''},
           files = [''/cwd/ws'' \<mapsto> \<lparr>is_dir = True, perm = 484, content = []\<rparr>],
           trace = [MkdirAll ''/cwd/ws'' 484 True, GoGet ''q'' True]\<rparr>))"
    by (simp add: main_def createWorkspace_def all_ok_def st0_def os_MkdirAll_def log_event_def
          has_prefix_def pkgArg_def parseImport_def splitColon_def findPkg_def Let_def
          IsLocalImport_def getPackage_def mark_def)
  from created_directories_have_mode_0744[OF a b] a b show ?thesis by simp
qed

text \<open>
  Claim C8 as stated fails: the mode that \<open>createWorkspace\<close> asks for gives the group
  read only and the others read, not group r-x and others nothing.
\<close>

theorem createWorkspace_mode_counterexample:
  "trace (snd (createWorkspace all_ok ''ws'' st0)) = [MkdirAll ''/cwd/ws'' 484 True]
   \<and> group_bits 484 = 4 \<and> other_bits 484 = 4
   \<and> \<not> (owner_bits 484 = 7 \<and> group_bits 484 = 5 \<and> other_bits 484 = 0)"
  by (simp add: createWorkspace_def all_ok_def st0_def os_MkdirAll_def log_event_def
        has_prefix_def group_bits_def other_bits_def owner_bits_def)

section \<open>Exit status\<close>

text \<open>
  Claim C9 at the input \<open>ws :x\<close>. The package argument \<open>:x\<close> has no import path, so
  \<open>parseImport\<close> returns a \<open>syntaxErr\<close>. \<open>checkError\<close>, not fatal, reports it and
  leaves \<open>exitCode\<close> as it was: the run ends with status 0, not 3.
\<close>

theorem main_malformed_specifier_exit_status:
  "parseImport all_ok '':x'' = ([], [], Some (syntaxErr InvalidImportPath '':x''))
   \<and> checkError False [Some (syntaxErr InvalidImportPath '':x'')] 0 = Return (True, 0)
   \<and> main n all_ok [''ws'', '':x''] st0
      = Some (Inr (0, \<lparr>resolved = {},
           files = [''/cwd/ws'' \<mapsto> \<lparr>is_dir = True, perm = 484, content = []\<rparr>],
           trace = [MkdirAll ''/cwd/ws'' 484 True]\<rparr>))"
  by (simp add: main_def createWorkspace_def all_ok_def st0_def os_MkdirAll_def log_event_def
        has_prefix_def pkgArg_def parseImport_def splitColon_def)

section \<open>The visited set only grows\<close>









section \<open>The branches of copyPkg\<close>

lemma copyPkg_gate:
  "findPkg w path nip = Inr (Some pkg, err) \<Longrightarrow> ImportPath pkg \<in> resolved st \<Longrightarrow>
     copyPkg (Suc n) w path nip st = Some (Inr ([], st))"
  by simp


section \<open>Runs in the example workspace\<close>

lemma demo_findPkg_e:
  "findPkg demo ''e'' [] = Inr (Some \<lparr>ImportPath = ''e'', Name = [], Dir = [], Goroot = False, Imports = []\<rparr>,
                               Some (fmtErr NotAGoPackage ''e''))"
  by (simp add: findPkg_def sys_defs demo_defs)

lemma demo_findPkg_fmt:
  "findPkg demo ''fmt'' [] = Inr (Some \<lparr>ImportPath = ''fmt'', Name = ''fmt'', Dir = ''/goroot/src/fmt'',
                                 Goroot = True, Imports = []\<rparr>, None)"
  by (simp add: findPkg_def sys_defs demo_defs)

lemma demo_findPkg_b:
  "findPkg demo ''b'' [] = Inr (Some \<lparr>ImportPath = ''b'', Name = ''b'', Dir = ''/go/src/b'',
                                 Goroot = False, Imports = []\<rparr>, None)"
  by (simp add: findPkg_def sys_defs demo_defs)


lemma demo_copyPkg_b:
  "\<exists>st'. copyPkg (Suc (Suc 0)) demo ''b'' [] st0 = Some (Inr ([], st'))
     \<and> trace st' = [MkdirAll ''/ws/src/b'' 484 True, CopyFile ''/go/src/b/b.go'' ''/ws/src/b/b.go'' True,
                 Chmod ''/ws/src/b/b.go'' 420 True, Chmod ''/ws/src/b'' 493 True]"
  by (simp add: demo_findPkg_b) (simp add: walk_defs sys_defs demo_defs)








section \<open>The two kinds of call\<close>

lemma copyPkg_expand:
  assumes "expands w (path, nip) pkg" and "ImportPath pkg \<notin> resolved st"
  shows "copyPkg (Suc n) w path nip st =
     (case copyDir w (Dir pkg) (filepath_Join (filepath_Join (workspace w) ''src'') (ImportPath pkg)) st of
        Inl x \<Rightarrow> Some (Inl x)
      | Inr (errs, st1) \<Rightarrow>
          (case copyEach (copyPkg n w) (map (\<lambda>dep. (dep, [])) (Imports pkg)) st1 of
             None \<Rightarrow> None
           | Some (Inl x) \<Rightarrow> Some (Inl x)
           | Some (Inr (errs2, st2)) \<Rightarrow>
               (case (if recursive w then findSubPkgs w (Dir pkg) (ImportPath pkg) else Inr []) of
                  Inl x \<Rightarrow> Some (Inl x)
                | Inr subPkgs \<Rightarrow>
                    (case copyEach (copyPkg n w) subPkgs (mark (ImportPath pkg) st2) of
                       None \<Rightarrow> None
                     | Some (Inl x) \<Rightarrow> Some (Inl x)
                     | Some (Inr (errs3, st3)) \<Rightarrow> Some (Inr (errs @ errs2 @ errs3, st3))))))"
  using assms
  by (simp add: expands_def split: sum.splits option.splits prod.splits)

lemma copyPkg_leaf:
  assumes "\<And>pkg. expands w (path, nip) pkg \<Longrightarrow> ImportPath pkg \<in> resolved st"
  shows "copyPkg (Suc n) w path nip st = copyPkg (Suc 0) w path nip st"
proof (cases "findPkg w path nip")
  case (Inl x)
  then show ?thesis by simp
next
  case (Inr pe)
  obtain po err where pe: "pe = (po, err)" by (cases pe)
  show ?thesis
  proof (cases po)
    case None
    with Inr pe show ?thesis by simp
  next
    case (Some pkg)
    show ?thesis
    proof (cases "ImportPath pkg \<in> resolved st \<or> err \<noteq> None \<or> Name pkg = [] \<or> Goroot pkg")
      case True
      with Inr pe Some show ?thesis by auto
    next
      case False
      with Inr pe Some have "expands w (path, nip) pkg" by (simp add: expands_def)
      with assms False show ?thesis by blast
    qed
  qed
qed


section \<open>More depth does not change an outcome\<close>

lemma copyEach_mono:
  assumes "\<And>p i s r. f p i s = Some r \<Longrightarrow> g p i s = Some r"
  shows "copyEach f as st = Some r \<Longrightarrow> copyEach g as st = Some r"
proof (induction as arbitrary: st r)
  case Nil
  then show ?case by simp
next
  case (Cons a as)
  obtain p i where a: "a = (p, i)" by (cases a)
  from Cons.prems a obtain r1 where h: "f p i st = Some r1" by (auto split: option.splits)
  then have g: "g p i st = Some r1" by (rule assms)
  show ?case
  proof (cases r1)
    case (Inl x)
    with Cons.prems a h have "r = Inl x" by simp
    with a g Inl show ?thesis by simp
  next
    case (Inr es)
    obtain e1 s1 where es: "es = (e1, s1)" by (cases es)
    from Cons.prems a h Inr es obtain r2 where t: "copyEach f as s1 = Some r2"
      by (auto split: option.splits)
    then have t': "copyEach g as s1 = Some r2" by (rule Cons.IH)
    from Cons.prems a h Inr es t have "r = (case r2 of Inl x \<Rightarrow> Inl x | Inr (e2, s2) \<Rightarrow> Inr (e1 @ e2, s2))"
      by (auto split: sum.splits)
    with a g Inr es t' show ?thesis by (auto split: sum.splits)
  qed
qed

lemma copyPkg_Suc_mono: "copyPkg n w p i st = Some r \<Longrightarrow> copyPkg (Suc n) w p i st = Some r"
proof (induction n arbitrary: p i st r)
  case 0
  then show ?case by simp
next
  case (Suc n)
  have each: "\<And>as s r. copyEach (copyPkg n w) as s = Some r \<Longrightarrow> copyEach (copyPkg (Suc n) w) as s = Some r"
    by (rule copyEach_mono[where f = "copyPkg n w"]) (rule Suc.IH)
  show ?case
  proof (cases "\<exists>pkg. expands w (p, i) pkg \<and> ImportPath pkg \<notin> resolved st")
    case False
    then have l: "\<And>pkg. expands w (p, i) pkg \<Longrightarrow> ImportPath pkg \<in> resolved st" by blast
    from copyPkg_leaf[OF l, where n = "Suc n"] copyPkg_leaf[OF l, where n = n] Suc.prems show ?thesis
      by (simp del: copyPkg.simps)
  next
    case True
    then obtain pkg where e: "expands w (p, i) pkg" "ImportPath pkg \<notin> resolved st" by blast
    let ?dst = "filepath_Join (filepath_Join (workspace w) ''src'') (ImportPath pkg)"
    let ?deps = "map (\<lambda>dep. (dep, [])) (Imports pkg)"
    let ?subs = "if recursive w then findSubPkgs w (Dir pkg) (ImportPath pkg) else Inr []"
    note a = Suc.prems[unfolded copyPkg_expand[OF e]]
    show ?thesis
    proof (cases "copyDir w (Dir pkg) ?dst st")
      case (Inl x)
      with a have "r = Inl x" by simp
      with Inl show ?thesis by (simp add: copyPkg_expand[OF e] del: copyPkg.simps)
    next
      case (Inr es)
      obtain e0 s0 where es: "es = (e0, s0)" by (cases es)
      from a Inr es obtain r1 where d: "copyEach (copyPkg n w) ?deps s0 = Some r1"
        by (auto split: option.splits)
      note d' = each[OF d]
      show ?thesis
      proof (cases r1)
        case (Inl x)
        with a Inr es d have "r = Inl x" by simp
        with Inr es d' Inl show ?thesis by (simp add: copyPkg_expand[OF e] del: copyPkg.simps)
      next
        case r1: (Inr es1)
        obtain e1 s1 where es1: "es1 = (e1, s1)" by (cases es1)
        show ?thesis
        proof (cases ?subs)
          case (Inl x)
          with a Inr es d r1 es1 have "r = Inl x" by simp
          with Inr es d' r1 es1 Inl show ?thesis by (simp add: copyPkg_expand[OF e] del: copyPkg.simps)
        next
          case sb: (Inr subs)
          from a Inr es d r1 es1 sb obtain r2 where
            s: "copyEach (copyPkg n w) subs (mark (ImportPath pkg) s1) = Some r2"
            by (auto split: option.splits)
          note s' = each[OF s]
          from a Inr es d r1 es1 sb s
          have "r = (case r2 of Inl x \<Rightarrow> Inl x | Inr (e3, s3) \<Rightarrow> Inr (e0 @ e1 @ e3, s3))"
            by (auto split: sum.splits)
          with Inr es d' r1 es1 sb s' show ?thesis
            by (auto simp: copyPkg_expand[OF e] simp del: copyPkg.simps split: sum.splits)
        qed
      qed
    qed
  qed
qed

lemma copyPkg_add_mono: "copyPkg n w p i st = Some r \<Longrightarrow> copyPkg (n + k) w p i st = Some r"
proof (induction k)
  case 0
  then show ?case by simp
next
  case (Suc k)
  then have "copyPkg (n + k) w p i st = Some r" by simp
  then have "copyPkg (Suc (n + k)) w p i st = Some r" by (rule copyPkg_Suc_mono)
  then show ?case by (simp only: add_Suc_right)
qed

lemma copyPkg_mono: "copyPkg n w p i st = Some r \<Longrightarrow> n \<le> m \<Longrightarrow> copyPkg m w p i st = Some r"
  using copyPkg_add_mono[of n w p i st r "m - n"] by simp


lemma copyPkg_deterministic:
  "copyPkg n w p i st = Some r \<Longrightarrow> copyPkg m w p i st = Some r' \<Longrightarrow> r = r'"
  using copyPkg_mono[of n w p i st r "max n m"] copyPkg_mono[of m w p i st r' "max n m"] by simp

section \<open>An import cycle\<close>








section \<open>Termination\<close>






section \<open>The call graph of the example workspace\<close>




section \<open>The trace only grows\<close>













section \<open>Runs in the other example environments\<close>



lemma nocwd_fields:
  "hidden nocwd = False" "recursive nocwd = True" "workspace nocwd = ''/ws''"
  "filepath_Abs nocwd p = (if has_prefix p ''/'' then Some p else None)"
  "os_Stat_ok nocwd p = True" "root_user nocwd = False"
  "os_MkdirAll_ok nocwd p = True"
  by (simp_all add: nocwd_def all_ok_def)








lemma perms_fields:
  "hidden perms = False" "recursive perms = True" "workspace perms = ''/ws''"
  "os_Lstat_tree perms = perms_tree"
  "filepath_Abs perms p = Some (if has_prefix p ''/'' then p else ''/cwd/'' @ p)"
  "os_Stat_ok perms p = True" "root_user perms = False" "os_Open perms p = Some ''data''"
  "os_Create_ok perms p = True" "io_Copy_ok perms p = True" "os_MkdirAll_ok perms p = True"
  "os_Chmod_ok perms p = True" "go_get_ok perms p = True"
  by (simp_all add: perms_def all_ok_def)

lemmas perms_defs = perms_fields perms_tree_def st0_def clash_def

section \<open>The loops of copyPkg, call by call\<close>




section \<open>The walk skips the workspace directory\<close>

lemma prune_node_info [simp]: "node_info (prune ws p c) = node_info c"
  by (cases c) auto

lemma prune_node_name [simp]: "node_name (prune ws p c) = node_name c"
  by (cases c) auto














section \<open>Two walks of one tree\<close>

lemma followsD:
  "follows fn gn R \<Longrightarrow> R s t \<Longrightarrow> fn path info err s = Inr (a, s') \<Longrightarrow>
     \<exists>t'. gn path info err t = Inr (a, t') \<and> R s' t'"
  unfolding follows_def by blast

lemma walk_follows:
  "follows fn gn R \<Longrightarrow> R s t \<Longrightarrow> walk fn p n s = Inr (a, s') \<Longrightarrow>
     \<exists>t'. walk gn p n t = Inr (a, t') \<and> R s' t'"
  "follows fn gn R \<Longrightarrow> R s t \<Longrightarrow> walk_children fn p ns s = Inr (a, s') \<Longrightarrow>
     \<exists>t'. walk_children gn p ns t = Inr (a, t') \<and> R s' t'"
proof (induction fn p n s and fn p ns s arbitrary: t a s' and t a s' rule: walk_walk_children.induct)
  case (1 fn path n m s)
  from followsD[OF "1.prems"(1,2)] "1.prems"(3) show ?case by simp
next
  case (2 fn path n m cs s)
  let ?i = "node_info (Directory n m cs)"
  from "2.prems"(3) obtain x s1 where f: "fn path ?i False s = Inr (x, s1)"
    by (auto split: sum.splits)
  from followsD[OF "2.prems"(1,2) f] obtain t1 where
    g: "gn path ?i False t = Inr (x, t1)" and R1: "R s1 t1" by blast
  show ?case
  proof (cases x)
    case SkipDir
    with f "2.prems"(3) have "a = WalkNil" "s' = s1" by simp_all
    with SkipDir g R1 show ?thesis by simp
  next
    case WalkNil
    with f "2.prems"(3) have rest: "walk_children fn path cs s1 = Inr (a, s')" by simp
    from "2.IH"[OF f refl WalkNil "2.prems"(1) R1 rest] obtain t' where
      "walk_children gn path cs t1 = Inr (a, t')" "R s' t'" by blast
    with WalkNil g show ?thesis by simp
  qed
next
  case (3 fn path n m s)
  let ?i = "node_info (Unlistable n m)"
  from "3.prems"(3) obtain x s1 where f: "fn path ?i False s = Inr (x, s1)"
    by (auto split: sum.splits)
  from followsD[OF "3.prems"(1,2) f] obtain t1 where
    g: "gn path ?i False t = Inr (x, t1)" and R1: "R s1 t1" by blast
  show ?case
  proof (cases x)
    case SkipDir
    with f "3.prems"(3) have "a = WalkNil" "s' = s1" by simp_all
    with SkipDir g R1 show ?thesis by simp
  next
    case WalkNil
    with f "3.prems"(3) have f2: "fn path ?i True s1 = Inr (a, s')" by simp
    from followsD[OF "3.prems"(1) R1 f2] obtain t' where
      "gn path ?i True t1 = Inr (a, t')" "R s' t'" by blast
    with WalkNil g show ?thesis by simp
  qed
next
  case (4 fn path n s)
  from followsD[OF "4.prems"(1,2)] "4.prems"(3) show ?case by simp
next
  case (5 fn path s)
  then show ?case by simp
next
  case (6 fn path c cs s)
  let ?q = "filepath_Join path (node_name c)"
  show ?case
  proof (cases "node_info c")
    case None
    with "6.prems"(3) obtain x s1 where
      f: "fn ?q None True s = Inr (x, s1)" and rest: "walk_children fn path cs s1 = Inr (a, s')"
      by (auto split: sum.splits)
    from followsD[OF "6.prems"(1,2) f] obtain t1 where
      g: "gn ?q None True t = Inr (x, t1)" and R1: "R s1 t1" by blast
    from "6.IH"(1)[OF None f refl "6.prems"(1) R1 rest] obtain t' where
      "walk_children gn path cs t1 = Inr (a, t')" "R s' t'" by blast
    with None g show ?thesis by simp
  next
    case (Some i)
    with "6.prems"(3) obtain x s1 where f: "walk fn ?q c s = Inr (x, s1)"
      by (auto split: sum.splits)
    from "6.IH"(2)[OF Some "6.prems"(1,2) f] obtain t1 where
      g: "walk gn ?q c t = Inr (x, t1)" and R1: "R s1 t1" by blast
    show ?thesis
    proof (cases "x = SkipDir \<and> \<not> IsDir i")
      case True
      with f Some "6.prems"(3) have "a = SkipDir" "s' = s1" by simp_all
      with True Some g R1 show ?thesis by simp
    next
      case False
      with f Some "6.prems"(3) have rest: "walk_children fn path cs s1 = Inr (a, s')"
        by (cases x) (auto split: if_splits)
      have "\<exists>t'. walk_children gn path cs t1 = Inr (a, t') \<and> R s' t'"
      proof (cases x)
        case WalkNil
        show ?thesis by (rule "6.IH"(3)[OF Some f refl WalkNil "6.prems"(1) R1 rest])
      next
        case SkipDir
        with False have d: "IsDir i" by simp
        show ?thesis by (rule "6.IH"(4)[OF Some f refl SkipDir d "6.prems"(1) R1 rest])
      qed
      then obtain t' where "walk_children gn path cs t1 = Inr (a, t')" "R s' t'" by blast
      with False Some g show ?thesis by (cases x) auto
    qed
  qed
qed

lemma filepath_Walk_follows:
  assumes "follows fn gn R" and "R s t" and "filepath_Walk w root fn s = Inr s'"
  shows "\<exists>t'. filepath_Walk w root gn t = Inr t' \<and> R s' t'"
proof (cases "os_Lstat_tree w root")
  case None
  with assms(3) obtain a where f: "fn root None True s = Inr (a, s')"
    by (auto simp: filepath_Walk_def split: sum.splits)
  from followsD[OF assms(1,2) f] None show ?thesis by (auto simp: filepath_Walk_def)
next
  case (Some n)
  with assms(3) obtain a where f: "walk fn root n s = Inr (a, s')"
    by (auto simp: filepath_Walk_def split: sum.splits)
  from walk_follows(1)[OF assms(1,2) f] Some show ?thesis by (auto simp: filepath_Walk_def)
qed

section \<open>The two passes of copyDir\<close>

lemma pushed_snoc:
  "length acc = length A \<Longrightarrow>
     pushed src dst (acc @ [x]) (A @ [e]) =
       pushed src dst acc A @ (if made e then [(dst_path src dst (fst x), Mode (snd x))] else [])"
  by (simp add: pushed_def)

lemma os_MkdirAll_trace: "os_MkdirAll w p m st = (ok, st') \<Longrightarrow> trace st' = trace st @ [MkdirAll p m ok]"
  by (auto simp: os_MkdirAll_def log_event_def Let_def)

lemma copyFile_trace:
  "copyFile w a b st = (e, st') \<Longrightarrow> \<exists>ok. trace st' = trace st @ [CopyFile a b ok]"
  by (auto simp: copyFile_def log_event_def Let_def split: option.splits if_splits)

lemma copyFile_error:
  "copyFile w a b st = (Some e, st') \<Longrightarrow> e \<noteq> fmtErr CannotChmod p \<and> e \<noteq> fmtErr CannotMkdir p"
  by (auto simp: copyFile_def Let_def split: option.splits if_splits)

lemma first_pass_entry:
  assumes R: "first_pass T src dst (errs, stack, st) acc"
    and tr: "trace st1 = trace st @ [e]"
    and w: "wants src dst x e"
    and stk: "stack1 = stack @ (if made e then [(dst_path src dst (fst x), Mode (snd x))] else [])"
    and er: "set errs \<subseteq> set errs1" "\<forall>p. fmtErr CannotChmod p \<notin> set errs1"
    and mk: "made e \<or> fmtErr CannotMkdir (dst_path src dst (fst x)) \<in> set errs1"
  shows "first_pass T src dst (errs1, stack1, st1) (acc @ [x])"
proof -
  from R obtain A where A: "trace st = T @ A" "list_all2 (wants src dst) acc A"
    "stack = pushed src dst acc A"
    and old: "\<forall>x \<in> set acc. (dst_path src dst (fst x), Mode (snd x)) \<in> set stack
                          \<or> fmtErr CannotMkdir (dst_path src dst (fst x)) \<in> set errs"
    unfolding first_pass_def by auto
  have len: "length acc = length A" using A(2) by (rule list_all2_lengthD)
  have 1: "trace st1 = T @ (A @ [e])" using tr A(1) by simp
  have 2: "list_all2 (wants src dst) (acc @ [x]) (A @ [e])"
    using A(2) w by (simp add: list_all2_appendI)
  have 3: "stack1 = pushed src dst (acc @ [x]) (A @ [e])"
    using stk A(3) len by (simp add: pushed_snoc)
  have 4: "\<forall>y \<in> set (acc @ [x]). (dst_path src dst (fst y), Mode (snd y)) \<in> set stack1
                          \<or> fmtErr CannotMkdir (dst_path src dst (fst y)) \<in> set errs1"
    using old er(1) stk mk by auto
  from 1 2 3 4 er(2) show ?thesis unfolding first_pass_def by blast
qed

lemma first_pass_errs:
  assumes "first_pass T src dst (errs, stack, st) acc"
    and "set errs \<subseteq> set errs1" "\<forall>p. fmtErr CannotChmod p \<notin> set errs1"
  shows "first_pass T src dst (errs1, stack, st) acc"
  using assms unfolding first_pass_def by auto

lemma copyFunc_copy:
  assumes "\<not> (\<not> hidden w \<and> FName i = [])" and "\<not> (\<not> hidden w \<and> hd (FName i) = CHR ''.'')"
    and "path \<noteq> workspace w" and "filepath_Rel src path = Some rel"
  shows "copyFunc w src dst path (Some i) False (errs, stack, st) =
     (if IsDir i then
        (case os_MkdirAll w (filepath_Join dst rel) 484 st of
           (False, st1) \<Rightarrow> Inr (WalkNil, (errs @ [fmtErr CannotMkdir (filepath_Join dst rel)], stack, st1))
         | (True, st1) \<Rightarrow> Inr (WalkNil, (errs, stack @ [(filepath_Join dst rel, Mode i)], st1)))
      else
        (case copyFile w path (filepath_Join dst rel) st of
           (Some e, st1) \<Rightarrow> Inr (WalkNil, (errs @ [e], stack @ [(filepath_Join dst rel, Mode i)], st1))
         | (None, st1) \<Rightarrow> Inr (WalkNil, (errs, stack @ [(filepath_Join dst rel, Mode i)], st1))))"
  using assms by (auto simp: copyFunc_def Let_def)

lemma copyFunc_follows: "follows (copyFunc w src dst) (planFunc w) (first_pass T src dst)"
  unfolding follows_def
proof (intro allI impI)
  fix path info err and cs :: copystate and acc a cs'
  assume R: "first_pass T src dst cs acc" and f: "copyFunc w src dst path info err cs = Inr (a, cs')"
  obtain errs stack st where cs: "cs = (errs, stack, st)" by (cases cs)
  note R' = R[unfolded cs]
  have nc: "\<forall>p. fmtErr CannotChmod p \<notin> set errs" using R' unfolding first_pass_def by simp
  show "\<exists>acc'. planFunc w path info err acc = Inr (a, acc') \<and> first_pass T src dst cs' acc'"
  proof (cases err)
    case True
    with f cs have a: "a = WalkNil" and c: "cs' = (errs @ [fmtErr CannotTraverse path], stack, st)"
      by (simp_all add: copyFunc_def)
    have "first_pass T src dst cs' acc" unfolding c
      by (rule first_pass_errs[OF R']) (use nc in auto)
    with True a show ?thesis by (simp add: planFunc_def)
  next
    case ne: False
    with f cs obtain i where i: "info = Some i" by (cases info) (auto simp: copyFunc_def)
    show ?thesis
    proof (cases "(\<not> hidden w \<and> hd (FName i) = CHR ''.'') \<or> path = workspace w")
      case True
      with f cs ne i have "cs' = cs"
        by (auto simp: copyFunc_def split: if_splits)
      moreover from True f cs ne i have "planFunc w path info err acc = Inr (a, acc)"
        by (auto simp: copyFunc_def planFunc_def split: if_splits)
      ultimately show ?thesis using R by simp
    next
      case False
      with f cs ne i have nn: "\<not> (\<not> hidden w \<and> FName i = [])"
        by (auto simp: copyFunc_def split: if_splits)
      from False f cs ne i nn obtain rel where rel: "filepath_Rel src path = Some rel"
        by (auto simp: copyFunc_def split: if_splits option.splits)
      from False have nh: "\<not> (\<not> hidden w \<and> hd (FName i) = CHR ''.'')" and nw: "path \<noteq> workspace w"
        by auto
      note g = f[unfolded cs i, simplified ne, unfolded copyFunc_copy[OF nn nh nw rel]]
      let ?d = "filepath_Join dst rel"
      have d: "dst_path src dst path = ?d" by (simp add: dst_path_def rel)
      have p: "planFunc w path info err acc = Inr (WalkNil, acc @ [(path, i)])"
        using False ne i nn by (simp add: planFunc_def)
      show ?thesis
      proof (cases "IsDir i")
        case True
        obtain ok st1 where m: "os_MkdirAll w ?d 484 st = (ok, st1)" by (cases "os_MkdirAll w ?d 484 st")
        from os_MkdirAll_trace[OF m] have tr: "trace st1 = trace st @ [MkdirAll ?d 484 ok]" .
        have wn: "wants src dst (path, i) (MkdirAll ?d 484 ok)" using True d by (simp add: wants_def)
        show ?thesis
        proof (cases ok)
          case t: True
          with g True m have a: "a = WalkNil"
            and c: "cs' = (errs, stack @ [(?d, Mode i)], st1)"
            by simp_all
          have "first_pass T src dst cs' (acc @ [(path, i)])" unfolding c
            by (rule first_pass_entry[OF R' tr wn]) (use nc t d in \<open>auto simp: made_def\<close>)
          with a p show ?thesis by simp
        next
          case nk: False
          with g True m have a: "a = WalkNil"
            and c: "cs' = (errs @ [fmtErr CannotMkdir ?d], stack, st1)"
            by simp_all
          have "first_pass T src dst cs' (acc @ [(path, i)])" unfolding c
            by (rule first_pass_entry[OF R' tr wn]) (use nc nk d in \<open>auto simp: made_def\<close>)
          with a p show ?thesis by simp
        qed
      next
        case nd: False
        obtain e st1 where m: "copyFile w path ?d st = (e, st1)" by (cases "copyFile w path ?d st")
        from copyFile_trace[OF m] obtain ok where tr: "trace st1 = trace st @ [CopyFile path ?d ok]" by blast
        have wn: "wants src dst (path, i) (CopyFile path ?d ok)" using nd d by (simp add: wants_def)
        show ?thesis
        proof (cases e)
          case None
          with g nd m have a: "a = WalkNil"
            and c: "cs' = (errs, stack @ [(?d, Mode i)], st1)"
            by simp_all
          have "first_pass T src dst cs' (acc @ [(path, i)])" unfolding c
            by (rule first_pass_entry[OF R' tr wn]) (use nc d in \<open>auto simp: made_def\<close>)
          with a p show ?thesis by simp
        next
          case (Some x)
          with g nd m have a: "a = WalkNil"
            and c: "cs' = (errs @ [x], stack @ [(?d, Mode i)], st1)"
            by simp_all
          from copyFile_error[OF m[unfolded Some]] have x: "\<And>p. x \<noteq> fmtErr CannotChmod p" by blast
          have "first_pass T src dst cs' (acc @ [(path, i)])" unfolding c
            by (rule first_pass_entry[OF R' tr wn]) (use nc d x in \<open>auto simp: made_def\<close>)
          with a p show ?thesis by simp
        qed
      qed
    qed
  qed
qed

lemma os_Chmod_trace: "os_Chmod w p m st = (ok, st') \<Longrightarrow> trace st' = trace st @ [Chmod p m ok]"
  by (auto simp: os_Chmod_def log_event_def split: option.splits if_splits)

lemma os_Chmod_files_other: "os_Chmod w p m st = (ok, st') \<Longrightarrow> q \<noteq> p \<Longrightarrow> files st' q = files st q"
  by (auto simp: os_Chmod_def log_event_def split: option.splits if_splits)

lemma os_Chmod_files_ok:
  "os_Chmod w p m st = (True, st') \<Longrightarrow> \<exists>e. files st' p = Some e \<and> perm e = m mod 512"
  by (auto simp: os_Chmod_def log_event_def split: option.splits if_splits)

lemma chmod_all_trace:
  "chmod_all w l errs st = (errs', st') \<Longrightarrow> \<exists>B. trace st' = trace st @ B \<and> list_all2 chmod_of l B"
proof (induction l arbitrary: errs st)
  case Nil
  then show ?case by simp
next
  case (Cons a rest)
  obtain p m where a: "a = (p, m)" by (cases a)
  obtain ok s1 where c: "os_Chmod w p m st = (ok, s1)" by (cases "os_Chmod w p m st")
  from Cons.prems a c obtain errs1 where r: "chmod_all w rest errs1 s1 = (errs', st')"
    by (cases ok) auto
  from Cons.IH[OF r] obtain B where B: "trace st' = trace s1 @ B" "list_all2 chmod_of rest B" by blast
  have "trace st' = trace st @ (Chmod p m ok # B)" using B(1) os_Chmod_trace[OF c] by simp
  moreover have "list_all2 chmod_of (a # rest) (Chmod p m ok # B)"
    using B(2) a by (auto simp: chmod_of_def)
  ultimately show ?case by blast
qed

lemma chmod_all_errs: "chmod_all w l errs st = (errs', st') \<Longrightarrow> set errs \<subseteq> set errs'"
proof (induction l arbitrary: errs st)
  case Nil
  then show ?case by simp
next
  case (Cons a rest)
  obtain p m where a: "a = (p, m)" by (cases a)
  obtain ok s1 where c: "os_Chmod w p m st = (ok, s1)" by (cases "os_Chmod w p m st")
  show ?case
  proof (cases ok)
    case True
    with Cons.prems a c have "chmod_all w rest errs s1 = (errs', st')" by simp
    then show ?thesis by (rule Cons.IH)
  next
    case False
    with Cons.prems a c have "chmod_all w rest (errs @ [fmtErr CannotChmod p]) s1 = (errs', st')" by simp
    from Cons.IH[OF this] show ?thesis by simp
  qed
qed

lemma chmod_all_files_other:
  "chmod_all w l errs st = (errs', st') \<Longrightarrow> q \<notin> fst ` set l \<Longrightarrow> files st' q = files st q"
proof (induction l arbitrary: errs st)
  case Nil
  then show ?case by simp
next
  case (Cons a rest)
  obtain p m where a: "a = (p, m)" by (cases a)
  obtain ok s1 where c: "os_Chmod w p m st = (ok, s1)" by (cases "os_Chmod w p m st")
  from Cons.prems(1) a c obtain errs1 where r: "chmod_all w rest errs1 s1 = (errs', st')"
    by (cases ok) auto
  from Cons.prems(2) a have "q \<noteq> p" "q \<notin> fst ` set rest" by auto
  with Cons.IH[OF r] os_Chmod_files_other[OF c] show ?case by simp
qed

lemma chmod_all_perms:
  assumes "chmod_all w l errs st = (errs', st')" and "distinct (map fst l)"
    and "\<forall>p. fmtErr CannotChmod p \<notin> set errs'"
  shows "\<forall>(p, m) \<in> set l. \<exists>e. files st' p = Some e \<and> perm e = m mod 512"
  using assms
proof (induction l arbitrary: errs st)
  case Nil
  then show ?case by simp
next
  case (Cons a rest)
  obtain p m where a: "a = (p, m)" by (cases a)
  obtain ok s1 where c: "os_Chmod w p m st = (ok, s1)" by (cases "os_Chmod w p m st")
  have ok: ok
  proof (rule ccontr)
    assume "\<not> ok"
    with Cons.prems(1) a c have "chmod_all w rest (errs @ [fmtErr CannotChmod p]) s1 = (errs', st')" by simp
    from chmod_all_errs[OF this] Cons.prems(3) show False by auto
  qed
  with Cons.prems(1) a c have r: "chmod_all w rest errs s1 = (errs', st')" by simp
  from Cons.prems(2) a have d: "distinct (map fst rest)" and np: "p \<notin> fst ` set rest" by auto
  from Cons.IH[OF r d Cons.prems(3)] have rest: "\<forall>(p, m) \<in> set rest. \<exists>e. files st' p = Some e \<and> perm e = m mod 512" .
  from c ok os_Chmod_files_ok[of w p m st s1] obtain e where "files s1 p = Some e" "perm e = m mod 512" by auto
  with chmod_all_files_other[OF r np] have "\<exists>e. files st' p = Some e \<and> perm e = m mod 512" by simp
  with rest a show ?case by simp
qed

lemma pushed_distinct:
  assumes "length plan = length A" and "distinct (map (\<lambda>x. dst_path src dst (fst x)) plan)"
  shows "distinct (map fst (pushed src dst plan A))"
proof -
  have "map fst (pushed src dst plan A)
          = map (\<lambda>xe. dst_path src dst (fst (fst xe))) (filter (\<lambda>(x, e). made e) (zip plan A))"
    by (simp add: pushed_def case_prod_beta comp_def)
  moreover have "distinct (map (\<lambda>xe. dst_path src dst (fst (fst xe))) (zip plan A))"
  proof -
    have "map (\<lambda>xe. dst_path src dst (fst (fst xe))) (zip plan A)
            = map (\<lambda>x. dst_path src dst (fst x)) (map fst (zip plan A))"
      by (simp add: comp_def)
    with assms show ?thesis by simp
  qed
  ultimately show ?thesis by (simp add: distinct_map_filter)
qed

section \<open>The visited-set gate\<close>




section \<open>The branch for packages that are not found\<close>

text \<open>
  Claim C3, as amended. When \<open>findPkg\<close> returns a package, with an error or without a
  package name, and the identifier is not yet visited, \<open>copyPkg\<close> runs \<open>go get\<close> on the
  identifier (the one event added to the trace), marks the identifier whether or not
  the download succeeded, and returns one error exactly when the download failed. It
  calls neither \<open>copyDir\<close> nor itself: the files are unchanged and depth one is enough.
\<close>

theorem copyPkg_unresolvable_branch:
  assumes "findPkg w path nip = Inr (Some pkg, err)"
    and "ImportPath pkg \<notin> resolved st"
    and "err \<noteq> None \<or> Name pkg = []"
  shows "copyPkg (Suc n) w path nip st =
           Some (Inr (if go_get_ok w (ImportPath pkg) then [] else [fmtErr DownloadFailed (ImportPath pkg)],
                      st\<lparr>resolved := insert (ImportPath pkg) (resolved st),
                         trace := trace st @ [GoGet (ImportPath pkg) (go_get_ok w (ImportPath pkg))]\<rparr>))"
  using assms by (auto simp: getPackage_def mark_def log_event_def)

theorem copyPkg_unresolvable_branch_witness:
  "copyPkg (Suc 0) demo ''e'' [] st0 =
     Some (Inr ([fmtErr DownloadFailed ''e''],
                \<lparr>resolved = {''e''}, files = Map.empty, trace = [GoGet ''e'' False]\<rparr>))"
  using copyPkg_unresolvable_branch[OF demo_findPkg_e, of st0 0]
  by (simp add: demo_defs)

text \<open>
  Claim C3 as stated fails on two inputs. When \<open>filepath.Abs\<close> fails, \<open>findPkg\<close> returns
  no package, and \<open>copyPkg\<close> reads the import path of the nil package before it looks at
  the error: the program panics, here on the arguments \<open>/ws .\<close>, with nothing fetched.
  And when the identifier is already visited the gate returns first: nothing is fetched
  for \<open>e\<close>, which cannot be resolved.
\<close>

theorem copyPkg_unresolvable_branch_counterexample:
  "findPkg nocwd ''.'' [] = Inr (None, Some (fmtErr NoAbsolutePath ''.''))
   \<and> copyPkg (Suc 0) nocwd ''.'' [] st0 = Some (Inl NilDereference)
   \<and> main (Suc 0) nocwd [''/ws'', ''.''] st0 = Some (Inl NilDereference)
   \<and> findPkg demo ''e'' [] = Inr (Some \<lparr>ImportPath = ''e'', Name = [], Dir = [], Goroot = False, Imports = []\<rparr>,
                               Some (fmtErr NotAGoPackage ''e''))
   \<and> copyPkg (Suc 0) demo ''e'' [] (mark ''e'' st0) = Some (Inr ([], mark ''e'' st0))"
proof -
  have a: "findPkg nocwd ''.'' [] = Inr (None, Some (fmtErr NoAbsolutePath ''.''))"
    by (simp add: findPkg_def sys_defs nocwd_fields)
  then have b: "copyPkg (Suc 0) nocwd ''.'' [] st = Some (Inl NilDereference)" for st by simp
  have a': "findPkg (nocwd\<lparr>workspace := ''/ws''\<rparr>) ''.'' [] = Inr (None, Some (fmtErr NoAbsolutePath ''.''))"
    by (simp add: findPkg_def sys_defs nocwd_def all_ok_def)
  have c: "main (Suc 0) nocwd [''/ws'', ''.''] st0 = Some (Inl NilDereference)"
    by (simp add: main_def createWorkspace_def pkgArg_def parseImport_def splitColon_def a'
          os_MkdirAll_def log_event_def has_prefix_def Let_def nocwd_fields st0_def)
  have d: "copyPkg (Suc 0) demo ''e'' [] (mark ''e'' st0) = Some (Inr ([], mark ''e'' st0))"
    by (simp add: demo_findPkg_e mark_def)
  from a b c d demo_findPkg_e show ?thesis by simp
qed

section \<open>The branch for packages that are copied\<close>





text \<open>
  Claim C5. A package that \<open>findPkg\<close> resolves (no error, a package name) and that is
  in GOROOT is neither copied nor fetched: \<open>copyPkg\<close> returns no error and the state,
  with its files and its trace of calls, is unchanged.
\<close>

theorem copyPkg_standard_package:
  assumes "findPkg w path nip = Inr (Some pkg, None)"
    and "Name pkg \<noteq> []"
    and "Goroot pkg"
  shows "copyPkg (Suc n) w path nip st = Some (Inr ([], st))"
  using assms by simp

theorem copyPkg_standard_package_witness:
  "copyPkg (Suc 0) demo ''fmt'' [] st0 = Some (Inr ([], st0))"
  using copyPkg_standard_package[OF demo_findPkg_fmt, of 0 st0]
  by simp

section \<open>Termination of copyPkg\<close>





section \<open>The workspace inside a source directory\<close>





section \<open>Permissions after a tree copy\<close>

text \<open>
  Claim C7, as amended. Whenever \<open>copyDir\<close> returns, its events are, after those that
  were there before, first one creation for each entry of the source tree that is to be
  copied, in the order of the walk (a directory made with mode 0744, or the copy of a
  file), and then one \<open>chmod\<close> to the source's mode for each entry that was made, in the
  reverse of the order of creation; there is no other event. If no \<open>chmod\<close> failed and no
  two entries have the same destination (as in every file system, where the names in a
  directory are distinct), then every entry to be copied, other than a directory whose
  creation failed, has at its destination the permission bits of its source.
\<close>

theorem copyDir_two_passes:
  assumes "copyDir w src dst st = Inr (errs, st')"
  shows "\<exists>plan A B.
      filepath_Walk w src (planFunc w) [] = Inr plan
    \<and> trace st' = trace st @ A @ B
    \<and> list_all2 (wants src dst) plan A
    \<and> list_all2 chmod_of (rev (pushed src dst plan A)) B
    \<and> ((\<forall>p. fmtErr CannotChmod p \<notin> set errs) \<and> distinct (map (\<lambda>x. dst_path src dst (fst x)) plan) \<longrightarrow>
         (\<forall>x \<in> set plan.
            fmtErr CannotMkdir (dst_path src dst (fst x)) \<in> set errs
            \<or> (\<exists>e. files st' (dst_path src dst (fst x)) = Some e \<and> perm e = Mode (snd x) mod 512)))"
proof -
  from assms obtain e1 stack s1 where
    wk: "filepath_Walk w src (copyFunc w src dst) ([], [], st) = Inr (e1, stack, s1)"
    and ch: "chmod_all w (rev stack) e1 s1 = (errs, st')"
    by (auto simp: copyDir_def split: sum.splits prod.splits)
  have R0: "first_pass (trace st) src dst ([], [], st) []"
    by (simp add: first_pass_def pushed_def)
  from filepath_Walk_follows[OF copyFunc_follows R0 wk] obtain plan where
    pl: "filepath_Walk w src (planFunc w) [] = Inr plan"
    and R: "first_pass (trace st) src dst (e1, stack, s1) plan" by blast
  from R obtain A where A: "trace s1 = trace st @ A" "list_all2 (wants src dst) plan A"
    "stack = pushed src dst plan A"
    and each: "\<forall>x \<in> set plan. (dst_path src dst (fst x), Mode (snd x)) \<in> set stack
                          \<or> fmtErr CannotMkdir (dst_path src dst (fst x)) \<in> set e1"
    unfolding first_pass_def by auto
  from chmod_all_trace[OF ch] obtain B where
    B: "trace st' = trace s1 @ B" "list_all2 chmod_of (rev stack) B" by blast
  have len: "length plan = length A" using A(2) by (rule list_all2_lengthD)
  have perms: "\<forall>x \<in> set plan.
            fmtErr CannotMkdir (dst_path src dst (fst x)) \<in> set errs
            \<or> (\<exists>e. files st' (dst_path src dst (fst x)) = Some e \<and> perm e = Mode (snd x) mod 512)"
    if nc: "\<forall>p. fmtErr CannotChmod p \<notin> set errs"
      and di: "distinct (map (\<lambda>x. dst_path src dst (fst x)) plan)"
  proof
    fix x assume x: "x \<in> set plan"
    have d: "distinct (map fst (rev stack))"
      using pushed_distinct[OF len di] A(3) by (simp add: rev_map[symmetric])
    from chmod_all_perms[OF ch d nc]
    have all: "\<forall>(p, m) \<in> set stack. \<exists>e. files st' p = Some e \<and> perm e = m mod 512" by simp
    from each x consider "(dst_path src dst (fst x), Mode (snd x)) \<in> set stack"
      | "fmtErr CannotMkdir (dst_path src dst (fst x)) \<in> set e1" by blast
    then show "fmtErr CannotMkdir (dst_path src dst (fst x)) \<in> set errs
            \<or> (\<exists>e. files st' (dst_path src dst (fst x)) = Some e \<and> perm e = Mode (snd x) mod 512)"
    proof cases
      case 1
      with all show ?thesis by auto
    next
      case 2
      with chmod_all_errs[OF ch] show ?thesis by auto
    qed
  qed
  have "trace st' = trace st @ A @ B" using A(1) B(1) by simp
  with pl A(2) B(2) A(3) perms show ?thesis by blast
qed


theorem copyDir_two_passes_witness:
  "\<exists>errs st'.
      copyDir perms ''/src/t'' ''/dst/t'' st0 = Inr (errs, st')
    \<and> errs = []
    \<and> os_Lstat_tree perms ''/src/t'' =
        Some (Directory ''t'' 493
                [Directory ''.git'' 493 [Regular ''config'' 420],
                 Directory ''d'' 365 [Regular ''f'' 420],
                 Regular ''ro.txt'' 292])
    \<and> trace st' =
        [MkdirAll ''/dst/t'' 484 True,
         MkdirAll ''/dst/t/d'' 484 True,
         CopyFile ''/src/t/d/f'' ''/dst/t/d/f'' True,
         CopyFile ''/src/t/ro.txt'' ''/dst/t/ro.txt'' True,
         Chmod ''/dst/t/ro.txt'' 292 True,
         Chmod ''/dst/t/d/f'' 420 True,
         Chmod ''/dst/t/d'' 365 True,
         Chmod ''/dst/t'' 493 True]
    \<and> map (\<lambda>p. map_option perm (files st' p))
          [''/dst/t'', ''/dst/t/d'', ''/dst/t/d/f'', ''/dst/t/ro.txt'', ''/dst/t/.git'']
        = [Some 493, Some 365, Some 420, Some 292, None]"
proof -
  have run: "\<exists>st'. copyDir perms ''/src/t'' ''/dst/t'' st0 = Inr ([], st')
      \<and> trace st' =
        [MkdirAll ''/dst/t'' 484 True,
         MkdirAll ''/dst/t/d'' 484 True,
         CopyFile ''/src/t/d/f'' ''/dst/t/d/f'' True,
         CopyFile ''/src/t/ro.txt'' ''/dst/t/ro.txt'' True,
         Chmod ''/dst/t/ro.txt'' 292 True,
         Chmod ''/dst/t/d/f'' 420 True,
         Chmod ''/dst/t/d'' 365 True,
         Chmod ''/dst/t'' 493 True]
      \<and> files st' ''/dst/t/.git'' = None"
    by (simp add: copyDir_def filepath_Walk_def copyFunc_def sys_defs perms_defs)
  then obtain st' where c: "copyDir perms ''/src/t'' ''/dst/t'' st0 = Inr ([], st')"
    and t: "trace st' =
        [MkdirAll ''/dst/t'' 484 True,
         MkdirAll ''/dst/t/d'' 484 True,
         CopyFile ''/src/t/d/f'' ''/dst/t/d/f'' True,
         CopyFile ''/src/t/ro.txt'' ''/dst/t/ro.txt'' True,
         Chmod ''/dst/t/ro.txt'' 292 True,
         Chmod ''/dst/t/d/f'' 420 True,
         Chmod ''/dst/t/d'' 365 True,
         Chmod ''/dst/t'' 493 True]"
    and g: "files st' ''/dst/t/.git'' = None" by blast
  have pl: "filepath_Walk perms ''/src/t'' (planFunc perms) [] =
      Inr [(''/src/t'', \<lparr>FName = ''t'', IsDir = True, Mode = 493\<rparr>),
           (''/src/t/d'', \<lparr>FName = ''d'', IsDir = True, Mode = 365\<rparr>),
           (''/src/t/d/f'', \<lparr>FName = ''f'', IsDir = False, Mode = 420\<rparr>),
           (''/src/t/ro.txt'', \<lparr>FName = ''ro.txt'', IsDir = False, Mode = 292\<rparr>)]"
    by (simp add: filepath_Walk_def planFunc_def sys_defs perms_defs)
  from copyDir_two_passes[OF c] pl
  have "\<exists>e. files st' ''/dst/t'' = Some e \<and> perm e = 493"
       "\<exists>e. files st' ''/dst/t/d'' = Some e \<and> perm e = 365"
       "\<exists>e. files st' ''/dst/t/d/f'' = Some e \<and> perm e = 420"
       "\<exists>e. files st' ''/dst/t/ro.txt'' = Some e \<and> perm e = 292"
    by (auto simp: dst_path_def sys_defs)
  with c t g show ?thesis by (auto simp: perms_defs)
qed

text \<open>
  Claim C7 as stated fails for a directory that cannot be created. In the destination a
  file with mode 0644 stands where the source has a directory with mode 0700: the
  creation of the directory fails, the destination is not put on the stack, and no
  \<open>chmod\<close> is tried on it. The copy completes with one error, which is not a \<open>chmod\<close>
  error, and the destination entry keeps mode 0644.
\<close>

theorem copyDir_two_passes_counterexample:
  "\<exists>st'.
      copyDir perms ''/src/u'' ''/dst/u'' clash = Inr ([fmtErr CannotMkdir ''/dst/u/x''], st')
    \<and> os_Lstat_tree perms ''/src/u'' = Some (Directory ''u'' 493 [Directory ''x'' 448 []])
    \<and> files clash ''/dst/u/x'' = Some \<lparr>is_dir = False, perm = 420, content = ''old''\<rparr>
    \<and> trace st' =
        [MkdirAll ''/dst/u'' 484 True, MkdirAll ''/dst/u/x'' 484 False, Chmod ''/dst/u'' 493 True]
    \<and> files st' ''/dst/u/x'' = Some \<lparr>is_dir = False, perm = 420, content = ''old''\<rparr>"
  by (simp add: copyDir_def filepath_Walk_def copyFunc_def sys_defs perms_defs)

lemma findPkg_import_path:
  assumes "p = [] \<or> (hd p \<noteq> CHR ''.'' \<and> hd p \<noteq> CHR ''/'')"
    and "ImportPath (fst (build_Import w p [])) = p"
  shows "findPkg w p p = findPkg w p []"
proof (cases "p = []")
  case True
  then show ?thesis by simp
next
  case False
  with assms(1) have h: "hd p \<noteq> CHR ''.''" "hd p \<noteq> CHR ''/''" by auto
  from False h have nl: "\<not> IsLocalImport p"
    by (cases p) (auto simp: IsLocalImport_def has_prefix_def)
  obtain pk e where b: "build_Import w p [] = (pk, e)" by (cases "build_Import w p []")
  with assms(2) have "pk\<lparr>ImportPath := p\<rparr> = pk" by simp
  with False h nl b show ?thesis by (simp add: findPkg_def Let_def)
qed

text \<open>
  Claim C10. For an import path \<open>p\<close> that does not start with a dot or a slash,
  \<open>copyPkg(p, "")\<close> and \<open>copyPkg(p, p)\<close> have the same outcome: the same errors and the
  same final state (visited set, files written, calls made), or both panic, or neither
  returns. \<open>go/build\<close> reports such a package under the import path it was asked for,
  which is the second hypothesis.
\<close>

theorem copyPkg_empty_new_import_path:
  assumes "p = [] \<or> (hd p \<noteq> CHR ''.'' \<and> hd p \<noteq> CHR ''/'')"
    and "ImportPath (fst (build_Import w p [])) = p"
  shows "copyPkg n w p [] st = copyPkg n w p p st"
proof (cases n)
  case 0
  then show ?thesis by simp
next
  case (Suc m)
  with findPkg_import_path[OF assms] show ?thesis by simp
qed

theorem copyPkg_empty_new_import_path_witness:
  "\<exists>st'. copyPkg (Suc (Suc 0)) demo ''b'' ''b'' st0 = Some (Inr ([], st'))
     \<and> trace st' = [MkdirAll ''/ws/src/b'' 484 True, CopyFile ''/go/src/b/b.go'' ''/ws/src/b/b.go'' True,
                 Chmod ''/ws/src/b/b.go'' 420 True, Chmod ''/ws/src/b'' 493 True]"
proof -
  have h1: "''b'' = [] \<or> (hd ''b'' \<noteq> CHR ''.'' \<and> hd ''b'' \<noteq> CHR ''/'')" by simp
  have h2: "ImportPath (fst (build_Import demo ''b'' [])) = ''b''" by (simp add: demo_defs)
  from copyPkg_empty_new_import_path[OF h1 h2, of "Suc (Suc 0)" st0] demo_copyPkg_b
  show ?thesis by simp
qed


end
